theory Spec2Isabelle
  imports Main "HOL-Library.Char_ord" "HOL-Library.List_Lexorder" "HOL-Library.Sublist"
begin

section \<open>JavaScript strings and numbers\<close>

text \<open>
  A string is a list of characters. JavaScript numbers are modelled as integers (time
  stamps in milliseconds, counts and window lengths), so NaN, the infinities and fractions
  are outside the model.

  \<open>toLowerCase\<close> and \<open>trim\<close> below are the case mapping and the trimming of ASCII
  text. The intent extractor and the compiler, which read the condition text of a rule,
  are written with them, and the white space class of the extractor's patterns is the
  ASCII one: the model of these two covers condition texts in ASCII. The rule engine and
  the rule store compare arbitrary paths and entries: there \<open>toLowerCase\<close>, \<open>trim\<close> and
  \<open>localeCompare\<close>, which depend on Unicode and on the locale, are taken from a value of
  type \<open>Host\<close> (see below), and a statement says what it assumes of them.
\<close>

definition lowerChar :: "char \<Rightarrow> char" where
  "lowerChar c =
     (let n = (of_char c :: nat) in if 65 \<le> n \<and> n \<le> 90 then char_of (n + 32) else c)"

definition toLowerCase :: "string \<Rightarrow> string" where
  "toLowerCase s = map lowerChar s"

definition isSpace :: "char \<Rightarrow> bool" where
  "isSpace c = (let n = (of_char c :: nat) in n = 32 \<or> (9 \<le> n \<and> n \<le> 13))"

definition trim :: "string \<Rightarrow> string" where
  "trim s = rev (dropWhile isSpace (rev (dropWhile isSpace s)))"

definition startsWith :: "string \<Rightarrow> string \<Rightarrow> bool" where
  "startsWith s p = (take (length p) s = p)"

text \<open>\<open>includesStr s sub\<close> is \<open>s.includes(sub)\<close>: \<open>sub\<close> occurs in \<open>s\<close> at some offset.\<close>

primrec includesStr :: "string \<Rightarrow> string \<Rightarrow> bool" where
  "includesStr [] sub = (sub = [])"
| "includesStr (c # cs) sub = (startsWith (c # cs) sub \<or> includesStr cs sub)"

definition digitChar :: "nat \<Rightarrow> char" where
  "digitChar d = char_of (48 + d)"

fun showNat :: "nat \<Rightarrow> string" where
  "showNat n = (if n < 10 then [digitChar n] else showNat (n div 10) @ [digitChar (n mod 10)])"

definition showInt :: "int \<Rightarrow> string" where
  "showInt i = (if i < 0 then CHR ''-'' # showNat (nat (- i)) else showNat (nat i))"

fun join :: "string \<Rightarrow> string list \<Rightarrow> string" where
  "join sep [] = []"
| "join sep [x] = x"
| "join sep (x # y # ys) = x @ sep @ join sep (y # ys)"

text \<open>
  The host: \<open>hostLowerCase\<close> is \<open>String.prototype.toLowerCase\<close>, \<open>hostTrim\<close> is
  \<open>String.prototype.trim\<close>, and \<open>hostLocaleCompare a b\<close> is \<open>a.localeCompare(b)\<close>.
\<close>

record Host =
  hostLowerCase :: "string \<Rightarrow> string"
  hostTrim :: "string \<Rightarrow> string"
  hostLocaleCompare :: "string \<Rightarrow> string \<Rightarrow> int"

section \<open>Data model (rules/types.ts, watcher/types.ts, llm/types.ts)\<close>

text \<open>
  \<open>EventType\<close> and \<open>RuleType\<close> are unions of string literals; at run time they are strings,
  and the code compares them as strings.
\<close>

type_synonym EventType = string
type_synonym RuleType = string

record FileEvent =
  etype :: EventType
  path :: string
  timestamp :: int

record MatchFilter =
  pathIncludes :: "string list option"
  pathExcludes :: "string list option"
  extensions :: "string list option"
  eventTypes :: "EventType list option"

record CompiledRule =
  ctype :: RuleType
  cmatch :: MatchFilter
  cwindowSeconds :: "int option"
  ccount :: "int option"

record Rule =
  rid :: string
  name :: string
  description :: string
  enabled :: bool
  createdAt :: int
  lastMatched :: "int option"
  matchCount :: int
  rtype :: RuleType
  rmatch :: MatchFilter
  action :: string
  source :: string
  originalCondition :: "string option"
  windowSeconds :: "int option"
  count :: "int option"

record RuleMatch =
  ruleId :: string
  ruleName :: string
  ruleType :: RuleType
  mtimestamp :: int
  summary :: string
  reason :: "string option"
  mpath :: "string option"
  eventType :: "EventType option"
  mcount :: "int option"
  mwindowSeconds :: "int option"

section \<open>path.extname (Node.js, POSIX flavour)\<close>

text \<open>
  The engine derives the extension of an event path with Node's \<open>path.extname\<close>. The
  function scans the path from its end; the record holds the loop's variables, with
  \<open>-1\<close> for "not seen yet" as in the library.
\<close>

record ExtScan =
  startDot :: int
  startPart :: int
  endPos :: int
  matchedSlash :: bool
  preDotState :: int

fun extnameLoop :: "string \<Rightarrow> nat \<Rightarrow> ExtScan \<Rightarrow> ExtScan" where
  "extnameLoop p 0 st = st"
| "extnameLoop p (Suc i) st =
     (let code = p ! i in
      if code = CHR ''/'' then
        (if \<not> matchedSlash st then st\<lparr>startPart := int i + 1\<rparr>
         else extnameLoop p i st)
      else
        (let st1 = (if endPos st = -1 then st\<lparr>matchedSlash := False, endPos := int i + 1\<rparr> else st);
             st2 = (if code = CHR ''.'' then
                      (if startDot st1 = -1 then st1\<lparr>startDot := int i\<rparr>
                       else if preDotState st1 \<noteq> 1 then st1\<lparr>preDotState := 1\<rparr>
                       else st1)
                    else if startDot st1 \<noteq> -1 then st1\<lparr>preDotState := -1\<rparr>
                    else st1)
         in extnameLoop p i st2))"

definition extname :: "string \<Rightarrow> string" where
  "extname p =
     (let st = extnameLoop p (length p)
                 \<lparr>startDot = -1, startPart = 0, endPos = -1, matchedSlash = True, preDotState = 0\<rparr>
      in if startDot st = -1 \<or> endPos st = -1 \<or> preDotState st = 0 \<or>
            (preDotState st = 1 \<and> startDot st = endPos st - 1 \<and> startDot st = startPart st + 1)
         then []
         else take (nat (endPos st) - nat (startDot st)) (drop (nat (startDot st)) p))"

section \<open>Rule engine (rules/RuleEngine.ts)\<close>

text \<open>
  \<open>x && x.length > 0\<close> on an optional array: the array is present and not empty.
\<close>

definition present :: "'a list option \<Rightarrow> bool" where
  "present v = (case v of None \<Rightarrow> False | Some xs \<Rightarrow> xs \<noteq> [])"

definition matchesFilter :: "Host \<Rightarrow> FileEvent \<Rightarrow> MatchFilter \<Rightarrow> bool" where
  "matchesFilter h event m =
     (let normalizedPath = hostLowerCase h (path event) in
      if present (pathExcludes m) \<and>
         list_ex (\<lambda>exc. includesStr normalizedPath (hostLowerCase h exc)) (the (pathExcludes m))
      then False
      else if present (pathIncludes m) \<and>
         \<not> list_ex (\<lambda>inc. includesStr normalizedPath (hostLowerCase h inc)) (the (pathIncludes m))
      then False
      else if present (extensions m) \<and>
         \<not> List.member (map (hostLowerCase h) (the (extensions m)))
              (hostLowerCase h (extname (path event)))
      then False
      else if present (eventTypes m) \<and> \<not> List.member (the (eventTypes m)) (etype event)
      then False
      else True)"

definition describeFilter :: "MatchFilter \<Rightarrow> string" where
  "describeFilter m =
     (let parts =
            (if present (extensions m)
             then [''files with '' @ join '', '' (the (extensions m))] else []) @
            (if present (pathIncludes m)
             then [''paths including '' @ join '', '' (the (pathIncludes m))] else []) @
            (if present (eventTypes m)
             then [''events '' @ join '', '' (the (eventTypes m))] else [])
      in if parts = [] then ''events'' else join '' and '' parts)"

text \<open>
  The threshold windows are a map from rule id to the retained time stamps.
  \<open>evaluateRule\<close> takes the reading of the clock (\<open>Date.now()\<close>) as \<open>now\<close> and returns
  the match, if the rule fires, with the updated windows. A threshold rule stored without
  a number for \<open>windowSeconds\<close> retains nothing (every comparison with NaN is false), and
  one without a number for \<open>count\<close> never fires.
\<close>

type_synonym Windows = "string \<rightharpoonup> int list"

definition evaluateRule ::
  "Host \<Rightarrow> int \<Rightarrow> FileEvent \<Rightarrow> Rule \<Rightarrow> Windows \<Rightarrow> RuleMatch option \<times> Windows" where
  "evaluateRule h now event rule tw =
     (if \<not> matchesFilter h event (rmatch rule) then (None, tw)
      else if rtype rule = ''pattern'' then
        (let reason = ''File '' @ path event @ '' was '' @ etype event in
         (Some \<lparr>ruleId = rid rule, ruleName = name rule, ruleType = rtype rule,
                 mtimestamp = now, summary = reason, reason = Some reason,
                 mpath = Some (path event), eventType = Some (etype event),
                 mcount = None, mwindowSeconds = None\<rparr>, tw))
      else if rtype rule = ''threshold'' then
        (let timestamps = (case tw (rid rule) of None \<Rightarrow> [] | Some ts \<Rightarrow> ts) @ [now];
             filtered = (case windowSeconds rule of
                           None \<Rightarrow> []
                         | Some w \<Rightarrow> filter (\<lambda>t. now - t \<le> w * 1000) timestamps);
             tw1 = tw(rid rule \<mapsto> filtered)
         in if (case count rule of None \<Rightarrow> False | Some c \<Rightarrow> c \<le> int (length filtered)) then
              (let reason = showNat (length filtered) @ '' '' @ describeFilter (rmatch rule) @
                             '' in the last '' @
                             (case windowSeconds rule of None \<Rightarrow> ''undefined'' | Some w \<Rightarrow> showInt w) @
                             ''s (threshold: '' @
                             (case count rule of None \<Rightarrow> ''undefined'' | Some c \<Rightarrow> showInt c) @ '')''
               in (Some \<lparr>ruleId = rid rule, ruleName = name rule, ruleType = rtype rule,
                          mtimestamp = now, summary = reason, reason = Some reason,
                          mpath = None, eventType = None,
                          mcount = Some (int (length filtered)),
                          mwindowSeconds = windowSeconds rule\<rparr>,
                   tw1(rid rule \<mapsto> [])))
            else (None, tw1))
      else (None, tw))"

text \<open>
  Auxiliary notions for stating properties of the engine: the entries of an optional array,
  the window of one rule, the time stamps \<open>evaluateRule\<close> retains, and a driver that
  feeds one rule a sequence of (clock reading, event) pairs and records on which of them
  it fires.
\<close>

definition entries :: "'a list option \<Rightarrow> 'a list" where
  "entries v = (case v of None \<Rightarrow> [] | Some xs \<Rightarrow> xs)"

definition windowOf :: "Windows \<Rightarrow> Rule \<Rightarrow> int list" where
  "windowOf tw rule = (case tw (rid rule) of None \<Rightarrow> [] | Some ts \<Rightarrow> ts)"

definition retained :: "int \<Rightarrow> int \<Rightarrow> int list \<Rightarrow> int list" where
  "retained now w ts = filter (\<lambda>t. now - t \<le> w * 1000) (ts @ [now])"


text \<open>
  A host for the examples: ASCII case mapping and trimming, and the comparison of strings
  character by character.
\<close>

definition compareStrings :: "string \<Rightarrow> string \<Rightarrow> int" where
  "compareStrings a b = (if a = b then 0 else if a \<le> b then - 1 else 1)"

definition asciiHost :: Host where
  "asciiHost = \<lparr>hostLowerCase = toLowerCase, hostTrim = trim, hostLocaleCompare = compareStrings\<rparr>"

text \<open>
  What every host's case mapping does on ASCII text: it maps the letters A to Z to a to z
  and leaves the other ASCII characters alone.
\<close>

definition isAscii :: "char \<Rightarrow> bool" where
  "isAscii c = ((of_char c :: nat) < 128)"

definition lowersAscii :: "Host \<Rightarrow> bool" where
  "lowersAscii h = (\<forall>s. list_all isAscii s \<longrightarrow> hostLowerCase h s = toLowerCase s)"

text \<open>Concrete rules and events used as examples.\<close>

definition burstRule :: Rule where
  "burstRule = \<lparr>rid = ''rule_1'', name = ''ts burst'', description = [], enabled = True,
     createdAt = 0, lastMatched = None, matchCount = 0, rtype = ''threshold'',
     rmatch = \<lparr>pathIncludes = None, pathExcludes = None, extensions = Some [''.ts''],
                eventTypes = None\<rparr>,
     action = ''notify'', source = ''manual'', originalCondition = None,
     windowSeconds = Some 60, count = Some 3\<rparr>"

definition tsEvent :: FileEvent where
  "tsEvent = \<lparr>etype = ''modified'', path = ''src/a.ts'', timestamp = 0\<rparr>"

definition srcTsCreated :: MatchFilter where
  "srcTsCreated = \<lparr>pathIncludes = Some [''src/''], pathExcludes = None,
     extensions = Some [''.ts''], eventTypes = Some [''created'']\<rparr>"

section \<open>Regular expressions (ECMAScript backtracking semantics)\<close>

text \<open>
  The intent extractor is written with regular-expression literals. A literal is modelled
  as a term of type \<open>Regex\<close>, and matching as the backtracking search of the language
  standard: \<open>rmatch_at\<close> returns, for a start offset, every way the pattern can match
  there (end offset and captures), in the order the search tries them, so the head of the
  list is the match the engine reports. Only the constructs the source uses are modelled:
  literals, classes given as character ranges, \<open>\b\<close>, sequence, alternation, greedy
  quantifiers \<open>{lo,hi}\<close> and capture groups. The flag \<open>i\<close> is the first argument.
\<close>

datatype Regex =
    Eps
  | Lit char
  | Cls "(char \<times> char) list"
  | WordB
  | Seq Regex Regex
  | Alt Regex Regex
  | Rep Regex nat "nat option"
  | Grp nat Regex

type_synonym Caps = "(nat \<times> nat \<times> nat) list"

definition upperChar :: "char \<Rightarrow> char" where
  "upperChar c =
     (let n = (of_char c :: nat) in if 97 \<le> n \<and> n \<le> 122 then char_of (n - 32) else c)"

definition inRanges :: "(char \<times> char) list \<Rightarrow> char \<Rightarrow> bool" where
  "inRanges rs c =
     list_ex (\<lambda>(lo, hi). (of_char lo :: nat) \<le> of_char c \<and> (of_char c :: nat) \<le> of_char hi) rs"

definition eqChar :: "bool \<Rightarrow> char \<Rightarrow> char \<Rightarrow> bool" where
  "eqChar icase a b = (if icase then upperChar a = upperChar b else a = b)"

definition inClass :: "bool \<Rightarrow> (char \<times> char) list \<Rightarrow> char \<Rightarrow> bool" where
  "inClass icase rs c =
     (inRanges rs c \<or> (icase \<and> (inRanges rs (lowerChar c) \<or> inRanges rs (upperChar c))))"

definition isWordChar :: "char \<Rightarrow> bool" where
  "isWordChar c = inRanges [(CHR ''a'', CHR ''z''), (CHR ''A'', CHR ''Z''),
                            (CHR ''0'', CHR ''9''), (CHR ''_'', CHR ''_'')] c"

definition isWordBoundary :: "string \<Rightarrow> nat \<Rightarrow> bool" where
  "isWordBoundary s i =
     ((0 < i \<and> i \<le> length s \<and> isWordChar (s ! (i - 1))) \<noteq> (i < length s \<and> isWordChar (s ! i)))"

text \<open>
  \<open>rep body n lo hi i c\<close> is the quantifier \<open>{lo,hi}\<close> over \<open>body\<close> at offset \<open>i\<close> of
  a string of length \<open>n\<close>: the mandatory iterations first, then greedily as many further
  ones as match, an iteration that consumes nothing being rejected once the minimum is
  reached. A body only ever returns offsets from \<open>i\<close> to \<open>n\<close>, which is what the test
  on \<open>j\<close> records.
\<close>

function rep ::
  "(nat \<Rightarrow> Caps \<Rightarrow> (nat \<times> Caps) list) \<Rightarrow> nat \<Rightarrow> nat \<Rightarrow> nat option \<Rightarrow> nat \<Rightarrow> Caps
     \<Rightarrow> (nat \<times> Caps) list" where
  "rep body n lo hi i c =
     (if hi = Some 0 then [(i, c)]
      else
        (let iter = concat (map (\<lambda>(j, c').
                      if (if lo = 0 then i < j else i \<le> j) \<and> j \<le> n
                      then rep body n (lo - 1) (map_option (\<lambda>h. h - 1) hi) j c'
                      else []) (body i c))
         in if lo \<noteq> 0 then iter else iter @ [(i, c)]))"
  by pat_completeness auto
termination
  by (relation "measure (\<lambda>(body, n, lo, hi, i, c). lo + (n - i))") (auto split: if_splits)

declare rep.simps [simp del]

fun rmatch_at :: "bool \<Rightarrow> string \<Rightarrow> Regex \<Rightarrow> nat \<Rightarrow> Caps \<Rightarrow> (nat \<times> Caps) list" where
  "rmatch_at ic s Eps i c = [(i, c)]"
| "rmatch_at ic s (Lit ch) i c =
     (if i < length s \<and> eqChar ic (s ! i) ch then [(i + 1, c)] else [])"
| "rmatch_at ic s (Cls rs) i c =
     (if i < length s \<and> inClass ic rs (s ! i) then [(i + 1, c)] else [])"
| "rmatch_at ic s WordB i c = (if isWordBoundary s i then [(i, c)] else [])"
| "rmatch_at ic s (Seq a b) i c =
     concat (map (\<lambda>(j, c'). rmatch_at ic s b j c') (rmatch_at ic s a i c))"
| "rmatch_at ic s (Alt a b) i c = rmatch_at ic s a i c @ rmatch_at ic s b i c"
| "rmatch_at ic s (Rep a lo hi) i c = rep (\<lambda>j c'. rmatch_at ic s a j c') (length s) lo hi i c"
| "rmatch_at ic s (Grp k a) i c =
     map (\<lambda>(j, c'). (j, (k, i, j) # c')) (rmatch_at ic s a i c)"

text \<open>
  \<open>execFrom\<close> tries the start offsets in turn (\<open>RegExp.prototype.exec\<close> without the
  \<open>g\<close> flag, \<open>String.prototype.match\<close>, \<open>test\<close>); \<open>matchAllFrom\<close> is the iteration of
  \<open>matchAll\<close> with the \<open>g\<close> flag, which resumes at the end of the previous match, one
  further on after an empty match. A result is (start, end, captures).
\<close>

fun execFrom :: "bool \<Rightarrow> Regex \<Rightarrow> string \<Rightarrow> nat list \<Rightarrow> (nat \<times> nat \<times> Caps) option" where
  "execFrom ic r s [] = None"
| "execFrom ic r s (i # rest) =
     (case rmatch_at ic s r i [] of
        [] \<Rightarrow> execFrom ic r s rest
      | (j, c) # _ \<Rightarrow> Some (i, j, c))"

definition regexExec :: "bool \<Rightarrow> Regex \<Rightarrow> string \<Rightarrow> (nat \<times> nat \<times> Caps) option" where
  "regexExec ic r s = execFrom ic r s [0..<Suc (length s)]"

definition regexTest :: "bool \<Rightarrow> Regex \<Rightarrow> string \<Rightarrow> bool" where
  "regexTest ic r s = (regexExec ic r s \<noteq> None)"

fun matchAllFrom ::
  "bool \<Rightarrow> Regex \<Rightarrow> string \<Rightarrow> nat list \<Rightarrow> nat \<Rightarrow> (nat \<times> nat \<times> Caps) list" where
  "matchAllFrom ic r s [] lastIndex = []"
| "matchAllFrom ic r s (i # rest) lastIndex =
     (if i < lastIndex then matchAllFrom ic r s rest lastIndex
      else (case rmatch_at ic s r i [] of
              [] \<Rightarrow> matchAllFrom ic r s rest lastIndex
            | (j, c) # _ \<Rightarrow> (i, j, c) # matchAllFrom ic r s rest (if j = i then i + 1 else j)))"

definition matchAll :: "bool \<Rightarrow> Regex \<Rightarrow> string \<Rightarrow> (nat \<times> nat \<times> Caps) list" where
  "matchAll ic r s = matchAllFrom ic r s [0..<Suc (length s)] 0"

definition slice :: "string \<Rightarrow> nat \<Rightarrow> nat \<Rightarrow> string" where
  "slice s a b = take (b - a) (drop a s)"

text \<open>\<open>matched s m\<close> is \<open>match[0]\<close>, \<open>captured s m k\<close> is \<open>match[k]\<close> (the last capture of group \<open>k\<close>).\<close>

definition matched :: "string \<Rightarrow> nat \<times> nat \<times> Caps \<Rightarrow> string" where
  "matched s m = slice s (fst m) (fst (snd m))"

definition captured :: "string \<Rightarrow> nat \<times> nat \<times> Caps \<Rightarrow> nat \<Rightarrow> string option" where
  "captured s m k = map_option (\<lambda>(a, b). slice s a b) (map_of (snd (snd m)) k)"

text \<open>Notation for writing the literals: a string, a sequence, a choice, and the usual classes.\<close>

primrec lit :: "string \<Rightarrow> Regex" where
  "lit [] = Eps"
| "lit (c # cs) = Seq (Lit c) (lit cs)"

primrec seq :: "Regex list \<Rightarrow> Regex" where
  "seq [] = Eps"
| "seq (r # rs) = Seq r (seq rs)"

fun alts :: "Regex list \<Rightarrow> Regex" where
  "alts [] = Cls []"
| "alts [r] = r"
| "alts (r # rs) = Alt r (alts rs)"

definition words :: "string list \<Rightarrow> Regex" where
  "words ws = alts (map lit ws)"

definition optional :: "Regex \<Rightarrow> Regex" where
  "optional r = Rep r 0 (Some 1)"

definition zeroOrMore :: "Regex \<Rightarrow> Regex" where
  "zeroOrMore r = Rep r 0 None"

definition oneOrMore :: "Regex \<Rightarrow> Regex" where
  "oneOrMore r = Rep r 1 None"

definition digit :: Regex where
  "digit = Cls [(CHR ''0'', CHR ''9'')]"

definition space :: Regex where
  "space = Cls [(CHR '' '', CHR '' ''), (char_of (9::nat), char_of (13::nat))]"

section \<open>Intent extractor (rules/intent.ts)\<close>

record RuleIntent =
  iEventTypes :: "EventType list"
  iExtensions :: "string list"
  iPathIncludes :: "string list"
  iCount :: "int option"
  iWindowSeconds :: "int option"

definition EVENT_ORDER :: "EventType list" where
  "EVENT_ORDER = [''created'', ''modified'', ''deleted'']"

definition LANGUAGE_EXTENSIONS :: "(string \<times> string list) list" where
  "LANGUAGE_EXTENSIONS =
     [(''typescript'', [''.ts'', ''.tsx'']),
      (''javascript'', [''.js'', ''.jsx'']),
      (''python'', [''.py'']),
      (''markdown'', [''.md'', ''.markdown'']),
      (''json'', [''.json'']),
      (''yaml'', [''.yml'', ''.yaml'']),
      (''yml'', [''.yml'', ''.yaml'']),
      (''html'', [''.html'', ''.htm'']),
      (''css'', [''.css'']),
      (''text'', [''.txt'']),
      (''csv'', [''.csv'']),
      (''java'', [''.java'']),
      (''rust'', [''.rs'']),
      (''go'', [''.go'']),
      (''kotlin'', [''.kt'', ''.kts'']),
      (''csharp'', [''.cs'']),
      (''c#'', [''.cs'']),
      (''cplusplus'', [''.cpp'', ''.hpp'', ''.h'']),
      (''c++'', [''.cpp'', ''.hpp'', ''.h'']),
      (''c'', [''.c'', ''.h''])]"

definition STOPWORDS :: "string list" where
  "STOPWORDS =
     [''the'', ''a'', ''an'', ''this'', ''that'', ''these'', ''those'', ''inside'', ''within'',
      ''under'', ''from'', ''in'', ''on'', ''at'', ''to'', ''of'', ''for'', ''with'', ''without'',
      ''folder'', ''directory'', ''dir'', ''root'', ''path'', ''file'', ''files'', ''any'']"

definition isSlash :: "char \<Rightarrow> bool" where
  "isSlash c = (c = CHR ''/'' \<or> c = CHR 0x5C)"

definition normalizePathToken :: "string \<Rightarrow> string" where
  "normalizePathToken token =
     (let normalized = map (\<lambda>c. if c = CHR 0x5C then CHR ''/'' else c) token
      in if normalized \<noteq> [] \<and> last normalized = CHR ''/'' then normalized
         else normalized @ ''/'')"

definition isDigit :: "char \<Rightarrow> bool" where
  "isDigit c = inRanges [(CHR ''0'', CHR ''9'')] c"

text \<open>
  \<open>token.replace(/[\\/]+$/, '')\<close> removes the run of slashes at the end of the token, and
  \<open>/^\d+$/\<close> holds of a non-empty string of digits.
\<close>

definition isStopwordToken :: "string \<Rightarrow> bool" where
  "isStopwordToken token =
     (let cleaned = toLowerCase (rev (dropWhile isSlash (rev token)))
      in if cleaned = [] then True
         else if list_all isDigit cleaned then True
         else List.member STOPWORDS cleaned)"

text \<open>The language matchers \<open>/\bKEY\b/\<close>, in the order of the source.\<close>

definition LANGUAGE_MATCHERS :: "(string \<times> Regex) list" where
  "LANGUAGE_MATCHERS =
     map (\<lambda>key. (key, seq [WordB, lit key, WordB]))
       [''typescript'', ''javascript'', ''python'', ''markdown'', ''json'', ''yaml'', ''yml'',
        ''html'', ''css'', ''text'', ''csv'', ''java'', ''rust'', ''go'', ''kotlin'', ''csharp'',
        ''c#'', ''cplusplus'', ''c++'', ''c'']"

text \<open>\<open>Number(match[1])\<close> on a string of decimal digits.\<close>

definition digitValue :: "char \<Rightarrow> nat" where
  "digitValue c = of_char c - 48"

definition Number :: "string \<Rightarrow> int" where
  "Number ds = int (foldl (\<lambda>acc c. 10 * acc + digitValue c) 0 ds)"

definition filesEtc :: "string list \<Rightarrow> Regex" where
  "filesEtc stems = alts (map (\<lambda>w. seq [lit w, optional (Lit CHR ''s'')]) stems)"

definition countPatterns :: "Regex list" where
  "countPatterns =
     [seq [WordB,
           alts [seq [lit ''at'', oneOrMore space, lit ''least''],
                 seq [lit ''no'', oneOrMore space, lit ''less'', oneOrMore space, lit ''than''],
                 lit ''>=''],
           zeroOrMore space, Grp 1 (oneOrMore digit), WordB],
      seq [WordB, Grp 1 (oneOrMore digit), zeroOrMore space,
           alts [seq [lit ''or'', oneOrMore space, lit ''more''],
                 seq [lit ''or'', oneOrMore space, lit ''greater''],
                 seq [lit ''or'', oneOrMore space, lit ''above''],
                 seq [lit ''or'', oneOrMore space, lit ''over''],
                 Lit CHR ''+''],
           zeroOrMore space,
           optional (filesEtc [''file'', ''event'', ''change'', ''time'']),
           WordB],
      seq [WordB, Grp 1 (oneOrMore digit), oneOrMore space,
           filesEtc [''file'', ''event'', ''change''], WordB]]"

fun firstCount :: "Regex list \<Rightarrow> string \<Rightarrow> int option" where
  "firstCount [] text = None"
| "firstCount (pattern # patterns) text =
     (case regexExec True pattern text of
        None \<Rightarrow> firstCount patterns text
      | Some m \<Rightarrow>
          (let count = Number (the (captured text m 1))
           in if 0 < count then Some count else firstCount patterns text))"

definition parseThresholdCount :: "string \<Rightarrow> int option" where
  "parseThresholdCount text = firstCount countPatterns text"

definition windowPattern :: Regex where
  "windowPattern =
     seq [WordB, words [''within'', ''in'', ''over'', ''during'', ''for''], oneOrMore space,
          Grp 1 (oneOrMore digit), zeroOrMore space,
          Grp 2 (alts [seq [lit ''second'', optional (Lit CHR ''s'')],
                       seq [lit ''sec'', optional (Lit CHR ''s'')],
                       seq [lit ''minute'', optional (Lit CHR ''s'')],
                       seq [lit ''min'', optional (Lit CHR ''s'')],
                       seq [lit ''hour'', optional (Lit CHR ''s'')],
                       seq [lit ''hr'', optional (Lit CHR ''s'')]]),
          WordB]"

definition parseWindowSeconds :: "string \<Rightarrow> int option" where
  "parseWindowSeconds text =
     (case regexExec True windowPattern text of
        None \<Rightarrow> None
      | Some m \<Rightarrow>
          (let val = Number (the (captured text m 1)) in
           if val \<le> 0 then None
           else
             (let unit = toLowerCase (the (captured text m 2)) in
              if startsWith unit ''hour'' \<or> startsWith unit ''hr'' then Some (val * 3600)
              else if startsWith unit ''min'' then Some (val * 60)
              else Some val)))"

definition deleteSynonyms :: "string list" where
  "deleteSynonyms = [''delete'', ''deleted'', ''deleting'', ''remove'', ''removed'', ''unlink'']"

definition createSynonyms :: "string list" where
  "createSynonyms = [''create'', ''created'', ''creating'', ''creates'', ''add'', ''added'', ''new'']"

definition modifySynonyms :: "string list" where
  "modifySynonyms = [''modify'', ''modified'', ''modifying'', ''update'', ''updated'', ''updating'',
                     ''edit'', ''edited'', ''editing'']"

definition changeSynonyms :: "string list" where
  "changeSynonyms = [''change'', ''changed'', ''changes'', ''changing'']"

text \<open>\<open>wholeWord ws\<close> is the literal \<open>/\b(w1|w2|...)\b/\<close>.\<close>

definition wholeWord :: "string list \<Rightarrow> Regex" where
  "wholeWord ws = seq [WordB, Grp 1 (words ws), WordB]"

definition deleteWords :: Regex where
  "deleteWords = wholeWord deleteSynonyms"

definition createWords :: Regex where
  "createWords = wholeWord createSynonyms"

definition modifyWords :: Regex where
  "modifyWords = wholeWord modifySynonyms"

definition changeWords :: Regex where
  "changeWords = wholeWord changeSynonyms"

definition extensionPattern :: Regex where
  "extensionPattern =
     seq [Lit CHR ''.'', Rep (Cls [(CHR ''a'', CHR ''z''), (CHR ''0'', CHR ''9'')]) 1 (Some 6), WordB]"

definition pathChar :: Regex where
  "pathChar = Cls [(CHR ''a'', CHR ''z''), (CHR ''0'', CHR ''9''), (CHR ''_'', CHR ''_''),
                   (CHR ''.'', CHR ''.''), (CHR ''-'', CHR ''-'')]"

definition pathPattern :: Regex where
  "pathPattern = Grp 1 (seq [oneOrMore pathChar, Cls [(CHR 0x5C, CHR 0x5C), (CHR ''/'', CHR ''/'')]])"

definition phrasePattern :: Regex where
  "phrasePattern =
     seq [WordB, Grp 1 (words [''in'', ''from'', ''under'', ''inside'', ''within'']), oneOrMore space,
          optional (words [''the'', ''a'', ''an'']), zeroOrMore space, Grp 2 (oneOrMore pathChar), WordB]"

text \<open>
  A JavaScript \<open>Set\<close> keeps its members in the order of their first insertion;
  \<open>Array.from\<close> lists them in that order.
\<close>

definition setAdd :: "'a list \<Rightarrow> 'a \<Rightarrow> 'a list" where
  "setAdd xs x = (if List.member xs x then xs else xs @ [x])"

definition addPathTokens :: "string list \<Rightarrow> string list \<Rightarrow> string list" where
  "addPathTokens acc tokens =
     foldl (\<lambda>acc token. if \<not> isStopwordToken token then setAdd acc (normalizePathToken token) else acc)
       acc tokens"

definition extractIntent :: "string \<Rightarrow> RuleIntent" where
  "extractIntent condition =
     (let text = toLowerCase condition;
          sawDelete = regexTest False deleteWords text;
          sawCreate = regexTest False createWords text;
          sawModify = regexTest False modifyWords text;
          sawChange = regexTest False changeWords text;
          ev1 = (if sawDelete then setAdd [] ''deleted'' else []);
          ev2 = (if sawCreate then setAdd ev1 ''created'' else ev1);
          ev3 = (if sawModify then setAdd ev2 ''modified'' else ev2);
          ev4 = (if sawChange then
                   (if \<not> sawDelete \<and> \<not> sawCreate \<and> \<not> sawModify
                    then setAdd (setAdd ev3 ''created'') ''modified''
                    else if \<not> List.member ev3 ''modified'' then setAdd ev3 ''modified''
                    else ev3)
                 else ev3);
          ext1 = foldl setAdd [] (map (matched text) (matchAll False extensionPattern text));
          ext2 = (if ext1 = [] then
                    foldl (\<lambda>acc (key, regex).
                             if regexTest False regex text
                             then (case map_of LANGUAGE_EXTENSIONS key of
                                     None \<Rightarrow> acc
                                   | Some exts \<Rightarrow> foldl setAdd acc exts)
                             else acc)
                      ext1 LANGUAGE_MATCHERS
                  else ext1);
          paths1 = addPathTokens []
                     (map (\<lambda>m. the (captured text m 1)) (matchAll True pathPattern text));
          paths2 = addPathTokens paths1
                     (map (\<lambda>m. the (captured text m 2)) (matchAll True phrasePattern text))
      in \<lparr>iEventTypes = filter (\<lambda>eventType. List.member ev4 eventType) EVENT_ORDER,
          iExtensions = ext2,
          iPathIncludes = paths2,
          iCount = parseThresholdCount text,
          iWindowSeconds = parseWindowSeconds text\<rparr>)"

text \<open>
  What it means for a text to mention a word, stated without regular expressions: the word
  occurs in the lower-cased text with no word character next to it on either side. This is
  the reading of "the condition contains a synonym" used in the properties below, where it
  is related to the literals of the source.
\<close>

definition containsWord :: "string \<Rightarrow> string \<Rightarrow> bool" where
  "containsWord text w =
     (\<exists>ps ss. text = ps @ w @ ss \<and> (ps = [] \<or> \<not> isWordChar (last ps)) \<and>
              (ss = [] \<or> \<not> isWordChar (hd ss)))"

definition mentions :: "string list \<Rightarrow> string \<Rightarrow> bool" where
  "mentions ws condition = (\<exists>w \<in> set ws. containsWord (toLowerCase condition) w)"

text \<open>Conditions used as examples.\<close>

definition testsCondition :: string where
  "testsCondition = ''If 3 or more files under __tests__/ are changed within 5 minutes''"

definition changeCondition :: string where
  "changeCondition = ''Alert when TypeScript files change''"

definition changeDeleteCondition :: string where
  "changeDeleteCondition = ''files changed or deleted''"

section \<open>Alignment of a compiled rule with the intent (rules/RuleCompiler.ts)\<close>

definition exclusionWords :: Regex where
  "exclusionWords =
     seq [Grp 1 (words [''exclude'', ''excluding'', ''except'', ''ignore'', ''ignoring'']), WordB]"

text \<open>
  \<open>alignRuleToIntent\<close> overwrites fields of the rule the model returned with what the
  intent extractor finds in the condition. The flag \<open>adjusted\<close> of the source only decides
  whether a log line is written.
\<close>

definition alignRuleToIntent :: "string \<Rightarrow> CompiledRule \<Rightarrow> CompiledRule" where
  "alignRuleToIntent condition rule =
     (let intent = extractIntent condition;
          m0 = cmatch rule;
          thresholdRequested = (iCount intent \<noteq> None \<and> iWindowSeconds intent \<noteq> None);
          rule1 = (if thresholdRequested then
                     rule\<lparr>ctype := ''threshold'', ccount := iCount intent,
                          cwindowSeconds := iWindowSeconds intent\<rparr>
                   else if ctype rule = ''threshold'' then
                     rule\<lparr>ctype := ''pattern'', ccount := None, cwindowSeconds := None\<rparr>
                   else rule);
          m1 = (if iEventTypes intent \<noteq> [] then m0\<lparr>eventTypes := Some (iEventTypes intent)\<rparr>
                else m0);
          m2 = (if iExtensions intent \<noteq> [] then m1\<lparr>extensions := Some (iExtensions intent)\<rparr>
                else if present (extensions m1) then m1\<lparr>extensions := None\<rparr>
                else m1);
          m3 = (if iPathIncludes intent \<noteq> [] then
                  m2\<lparr>pathIncludes :=
                       Some (foldl setAdd []
                               (filter (\<lambda>v. v \<noteq> []) (map trim (iPathIncludes intent))))\<rparr>
                else if present (pathIncludes m2) then m2\<lparr>pathIncludes := None\<rparr>
                else m2);
          m4 = (if \<not> regexTest True exclusionWords condition then
                  (if present (pathExcludes m3) then m3\<lparr>pathExcludes := None\<rparr> else m3)
                else m3)
      in rule1\<lparr>cmatch := m4\<rparr>)"

section \<open>Rule validator (rules/RuleValidator.ts)\<close>

record ValidationError =
  field :: string
  message :: string

record ValidationResult =
  valid :: bool
  errors :: "ValidationError list"

definition MIN_WINDOW_SECONDS :: int where "MIN_WINDOW_SECONDS = 10"
definition MAX_WINDOW_SECONDS :: int where "MAX_WINDOW_SECONDS = 86400"
definition MIN_THRESHOLD_COUNT :: int where "MIN_THRESHOLD_COUNT = 1"
definition MAX_THRESHOLD_COUNT :: int where "MAX_THRESHOLD_COUNT = 1000"

text \<open>
  The match filter of the model always is an object whose arrays hold strings, so the
  checks \<open>validateArray\<close> makes on the run-time types have no counterpart here; the checks
  on the extensions and on the event types remain.
\<close>

definition validateMatchFilter :: "MatchFilter \<Rightarrow> ValidationError list" where
  "validateMatchFilter m =
     concat (map (\<lambda>ext. if \<not> startsWith ext ''.''
                         then [\<lparr>field = ''extensions'',
                                 message = ''Extension \"'' @ ext @ ''\" must start with \".\"''\<rparr>]
                         else [])
                 (entries (extensions m))) @
     concat (map (\<lambda>eventType.
                    if \<not> List.member [''created'', ''modified'', ''deleted''] eventType
                    then [\<lparr>field = ''eventTypes'',
                            message = ''Invalid event type \"'' @ eventType @ ''\"''\<rparr>]
                    else [])
                 (entries (eventTypes m)))"

definition validateCompiledRule :: "CompiledRule \<Rightarrow> ValidationResult" where
  "validateCompiledRule rule =
     (let e1 = (if ctype rule = [] then [\<lparr>field = ''type'', message = ''Rule type is required''\<rparr>]
                else []);
          e2 = e1 @ validateMatchFilter (cmatch rule);
          e3 = (if ctype rule = ''threshold'' then
                  e2 @
                  (case cwindowSeconds rule of
                     None \<Rightarrow> [\<lparr>field = ''windowSeconds'', message = ''windowSeconds must be a number''\<rparr>]
                   | Some w \<Rightarrow>
                       if w < MIN_WINDOW_SECONDS \<or> MAX_WINDOW_SECONDS < w
                       then [\<lparr>field = ''windowSeconds'',
                               message = ''windowSeconds must be between '' @
                                 showInt MIN_WINDOW_SECONDS @ '' and '' @ showInt MAX_WINDOW_SECONDS\<rparr>]
                       else []) @
                  (case ccount rule of
                     None \<Rightarrow> [\<lparr>field = ''count'', message = ''count must be a number''\<rparr>]
                   | Some c \<Rightarrow>
                       if c < MIN_THRESHOLD_COUNT \<or> MAX_THRESHOLD_COUNT < c
                       then [\<lparr>field = ''count'',
                               message = ''count must be between '' @
                                 showInt MIN_THRESHOLD_COUNT @ '' and '' @ showInt MAX_THRESHOLD_COUNT\<rparr>]
                       else [])
                else e2);
          hasPathOrExtension =
            (present (pathIncludes (cmatch rule)) \<or> present (extensions (cmatch rule)));
          e4 = (if \<not> hasPathOrExtension
                then e3 @ [\<lparr>field = ''match'',
                              message = ''Rule is too broad. Add pathIncludes or extensions to narrow scope.''\<rparr>]
                else e3)
      in \<lparr>valid = (e4 = []), errors = e4\<rparr>)"

section \<open>Rule store (rules/RuleStore.js)\<close>

text \<open>
  The store keeps the rules in a list, in insertion order. Saving the list to disk has no
  effect on the list and is not modelled. The identifier of a new rule (a random UUID) and
  the readings of the clock are arguments.
\<close>

record StoreData =
  version :: nat
  rules :: "Rule list"

record AddRuleParams =
  pName :: string
  pDescription :: string
  pCondition :: string
  pCompiled :: CompiledRule
  pSource :: string

definition addRule :: "string \<Rightarrow> int \<Rightarrow> AddRuleParams \<Rightarrow> StoreData \<Rightarrow> Rule \<times> StoreData" where
  "addRule newId now params data =
     (let threshold = (ctype (pCompiled params) = ''threshold'');
          rule = \<lparr>rid = newId, name = pName params, description = pDescription params,
                  enabled = True, createdAt = now, lastMatched = None, matchCount = 0,
                  rtype = ctype (pCompiled params), rmatch = cmatch (pCompiled params),
                  action = ''notify'', source = pSource params,
                  originalCondition = Some (pCondition params),
                  windowSeconds =
                    (if threshold
                     then Some (case cwindowSeconds (pCompiled params) of None \<Rightarrow> 0 | Some w \<Rightarrow> w)
                     else None),
                  count =
                    (if threshold
                     then Some (case ccount (pCompiled params) of None \<Rightarrow> 0 | Some c \<Rightarrow> c)
                     else None)\<rparr>
      in (rule, data\<lparr>rules := rules data @ [rule]\<rparr>))"

text \<open>
  \<open>Array.prototype.sort\<close> is stable; with a consistent comparison its result is that
  of the stable insertion sort below, which puts an entry behind the entries that follow it
  in the input only where the comparison is positive. The comparison of the source is
  \<open>a.localeCompare(b)\<close>, which depends on the host: \<open>localeLe h a b\<close> is
  \<open>a.localeCompare(b) \<le> 0\<close>.
\<close>

fun insertSorted :: "('a \<Rightarrow> 'a \<Rightarrow> bool) \<Rightarrow> 'a \<Rightarrow> 'a list \<Rightarrow> 'a list" where
  "insertSorted le x [] = [x]"
| "insertSorted le x (y # ys) = (if le x y then x # y # ys else y # insertSorted le x ys)"

definition sortWith :: "('a \<Rightarrow> 'a \<Rightarrow> bool) \<Rightarrow> 'a list \<Rightarrow> 'a list" where
  "sortWith le xs = foldr (insertSorted le) xs []"

definition localeLe :: "Host \<Rightarrow> string \<Rightarrow> string \<Rightarrow> bool" where
  "localeLe h a b = (hostLocaleCompare h a b \<le> 0)"

definition normalizeArray :: "Host \<Rightarrow> string list option \<Rightarrow> string list option" where
  "normalizeArray h values =
     (case values of
        None \<Rightarrow> None
      | Some vs \<Rightarrow>
          (let normalized = filter (\<lambda>v. v \<noteq> []) (map (\<lambda>v. hostLowerCase h (hostTrim h v)) vs)
           in if normalized = [] then None
              else Some (sortWith (localeLe h) (foldl setAdd [] normalized))))"

text \<open>\<open>JSON.stringify\<close> on strings, integers, arrays of strings and the signature object.\<close>

definition hexDigit :: "nat \<Rightarrow> char" where
  "hexDigit d = (if d < 10 then char_of (48 + d) else char_of (87 + d))"

definition jsonEscape :: "char \<Rightarrow> string" where
  "jsonEscape c =
     (let n = (of_char c :: nat) in
      if c = CHR 0x22 then [CHR 0x5C, CHR 0x22]
      else if c = CHR 0x5C then [CHR 0x5C, CHR 0x5C]
      else if n = 8 then [CHR 0x5C, CHR ''b'']
      else if n = 12 then [CHR 0x5C, CHR ''f'']
      else if n = 10 then [CHR 0x5C, CHR ''n'']
      else if n = 13 then [CHR 0x5C, CHR ''r'']
      else if n = 9 then [CHR 0x5C, CHR ''t'']
      else if n < 32 then [CHR 0x5C, CHR ''u'', CHR ''0'', CHR ''0'', hexDigit (n div 16), hexDigit (n mod 16)]
      else [c])"

definition jsonString :: "string \<Rightarrow> string" where
  "jsonString s = [CHR 0x22] @ concat (map jsonEscape s) @ [CHR 0x22]"

definition jsonArray :: "string list \<Rightarrow> string" where
  "jsonArray xs = ''['' @ join '','' (map jsonString xs) @ '']''"

definition jsonNumberOrNull :: "int option \<Rightarrow> string" where
  "jsonNumberOrNull v = (case v of None \<Rightarrow> ''null'' | Some i \<Rightarrow> showInt i)"

definition jsonField :: "string \<Rightarrow> string list option \<Rightarrow> string list" where
  "jsonField key v = (case v of None \<Rightarrow> [] | Some xs \<Rightarrow> [jsonString key @ '':'' @ jsonArray xs])"

definition ruleSignatureFromCompiled :: "Host \<Rightarrow> CompiledRule \<Rightarrow> string" where
  "ruleSignatureFromCompiled h compiled =
     ''{'' @ jsonString ''type'' @ '':'' @ jsonString (ctype compiled) @ '','' @
     jsonString ''match'' @ '':{'' @
       join '',''
         (jsonField ''pathIncludes'' (normalizeArray h (pathIncludes (cmatch compiled))) @
          jsonField ''pathExcludes'' (normalizeArray h (pathExcludes (cmatch compiled))) @
          jsonField ''extensions'' (normalizeArray h (extensions (cmatch compiled))) @
          jsonField ''eventTypes'' (normalizeArray h (eventTypes (cmatch compiled)))) @
     ''},'' @
     jsonString ''windowSeconds'' @ '':'' @ jsonNumberOrNull (cwindowSeconds compiled) @ '','' @
     jsonString ''count'' @ '':'' @ jsonNumberOrNull (ccount compiled) @ ''}''"

definition ruleSignatureFromRule :: "Host \<Rightarrow> Rule \<Rightarrow> string" where
  "ruleSignatureFromRule h rule =
     ruleSignatureFromCompiled h
       \<lparr>ctype = rtype rule, cmatch = rmatch rule,
        cwindowSeconds = (if rtype rule = ''threshold'' then windowSeconds rule else None),
        ccount = (if rtype rule = ''threshold'' then count rule else None)\<rparr>"

definition findDuplicateRule ::
  "Host \<Rightarrow> string \<Rightarrow> CompiledRule \<Rightarrow> StoreData \<Rightarrow> Rule option" where
  "findDuplicateRule h condition compiled data =
     (let normalizedCondition = hostLowerCase h (hostTrim h condition);
          compiledSignature = ruleSignatureFromCompiled h compiled
      in find (\<lambda>rule.
                 (let existingCondition =
                        (case originalCondition rule of
                           None \<Rightarrow> []
                         | Some c \<Rightarrow> hostLowerCase h (hostTrim h c))
                  in if existingCondition \<noteq> [] \<and> existingCondition = normalizedCondition then True
                     else ruleSignatureFromRule h rule = compiledSignature))
           (rules data))"

definition getEnabledRules :: "StoreData \<Rightarrow> Rule list" where
  "getEnabledRules data = filter enabled (rules data)"

text \<open>
  The methods that change a rule look it up with \<open>find\<close>, so they act on the first rule
  of the list that has the identifier.
\<close>

fun modifyFirst :: "('a \<Rightarrow> bool) \<Rightarrow> ('a \<Rightarrow> 'a) \<Rightarrow> 'a list \<Rightarrow> 'a list" where
  "modifyFirst p f [] = []"
| "modifyFirst p f (x # xs) = (if p x then f x # xs else x # modifyFirst p f xs)"

text \<open>
  The \<open>updates\<close> object is a \<open>Partial<Rule>\<close>: any key of a rule may be present in it.
\<close>

record RuleUpdates =
  uId :: "string option"
  uName :: "string option"
  uDescription :: "string option"
  uEnabled :: "bool option"
  uCreatedAt :: "int option"
  uLastMatched :: "int option"
  uMatchCount :: "int option"
  uType :: "RuleType option"
  uMatch :: "MatchFilter option"
  uAction :: "string option"
  uSource :: "string option"
  uOriginalCondition :: "string option"
  uWindowSeconds :: "int option"
  uCount :: "int option"

definition applyUpdates :: "RuleUpdates \<Rightarrow> Rule \<Rightarrow> Rule" where
  "applyUpdates updates rule =
     (let r1 = (case uName updates of None \<Rightarrow> rule | Some v \<Rightarrow> rule\<lparr>name := v\<rparr>);
          r2 = (case uDescription updates of None \<Rightarrow> r1 | Some v \<Rightarrow> r1\<lparr>description := v\<rparr>);
          r3 = (case uEnabled updates of None \<Rightarrow> r2 | Some v \<Rightarrow> r2\<lparr>enabled := v\<rparr>)
      in r3)"

definition updateRule :: "string \<Rightarrow> RuleUpdates \<Rightarrow> StoreData \<Rightarrow> bool \<times> StoreData" where
  "updateRule ident updates data =
     (case find (\<lambda>r. rid r = ident) (rules data) of
        None \<Rightarrow> (False, data)
      | Some rule \<Rightarrow>
          (let changed = (uName updates \<noteq> None \<or> uDescription updates \<noteq> None \<or>
                          uEnabled updates \<noteq> None)
           in (changed,
               data\<lparr>rules := modifyFirst (\<lambda>r. rid r = ident) (applyUpdates updates) (rules data)\<rparr>)))"

definition deleteRule :: "string \<Rightarrow> StoreData \<Rightarrow> bool \<times> StoreData" where
  "deleteRule ident data =
     (case find (\<lambda>r. rid r = ident) (rules data) of
        None \<Rightarrow> (False, data)
      | Some rule \<Rightarrow>
          (True, data\<lparr>rules := takeWhile (\<lambda>r. rid r \<noteq> ident) (rules data) @
                                 tl (dropWhile (\<lambda>r. rid r \<noteq> ident) (rules data))\<rparr>))"

definition recordMatchStore :: "string \<Rightarrow> int \<Rightarrow> StoreData \<Rightarrow> StoreData" where
  "recordMatchStore ident now data =
     data\<lparr>rules := modifyFirst (\<lambda>r. rid r = ident)
                       (\<lambda>r. r\<lparr>lastMatched := Some now, matchCount := matchCount r + 1\<rparr>)
                       (rules data)\<rparr>"

section \<open>Evaluation of an event (RuleEngine.evaluateEvent)\<close>

record EngineStats =
  eventsObserved :: nat
  rulesEvaluated :: nat
  matches :: nat

record Engine =
  ruleStore :: StoreData
  stats :: EngineStats
  recentMatches :: "RuleMatch list"
  recentMatchLimit :: nat
  thresholdWindows :: Windows
  watchDir :: string

definition recordMatch :: "RuleMatch \<Rightarrow> Engine \<Rightarrow> Engine" where
  "recordMatch m eng =
     (let pushed = recentMatches eng @ [m]
      in eng\<lparr>recentMatches := (if recentMatchLimit eng < length pushed then tl pushed else pushed)\<rparr>)"

text \<open>
  The loop over the enabled rules. The rules are the copies \<open>getEnabledRules\<close> returned
  before the loop. The clock is read once when a rule evaluates an event that passes its
  filter and once when the store records the match; \<open>clock\<close> gives the two readings of
  the \<open>k\<close>-th iteration as \<open>clock (2 * k)\<close> and \<open>clock (2 * k + 1)\<close>.
\<close>

fun evaluateRules ::
  "Host \<Rightarrow> (nat \<Rightarrow> int) \<Rightarrow> FileEvent \<Rightarrow> nat \<Rightarrow> Rule list \<Rightarrow> Engine
     \<Rightarrow> RuleMatch list \<times> Engine" where
  "evaluateRules h clock event k [] eng = ([], eng)"
| "evaluateRules h clock event k (rule # rest) eng =
     (let res = evaluateRule h (clock (2 * k)) event rule (thresholdWindows eng);
          eng1 = eng\<lparr>thresholdWindows := snd res\<rparr>
      in case fst res of
           None \<Rightarrow> evaluateRules h clock event (k + 1) rest eng1
         | Some m \<Rightarrow>
             (let eng2 = eng1\<lparr>stats := (stats eng1)\<lparr>matches := matches (stats eng1) + 1\<rparr>\<rparr>;
                  eng3 = eng2\<lparr>ruleStore := recordMatchStore (rid rule) (clock (2 * k + 1))
                                               (ruleStore eng2)\<rparr>;
                  eng4 = recordMatch m eng3;
                  out = evaluateRules h clock event (k + 1) rest eng4
              in (m # fst out, snd out)))"

text \<open>
  \<open>validateFilePath\<close> is the verdict of the engine's \<open>SecurityValidator\<close>, which inspects
  the file system, and \<open>resolve\<close> is \<open>path.resolve\<close>; both are arguments.
\<close>

definition evaluateEvent ::
  "Host \<Rightarrow> (string \<Rightarrow> bool) \<Rightarrow> (string \<Rightarrow> string \<Rightarrow> string) \<Rightarrow> (nat \<Rightarrow> int) \<Rightarrow> FileEvent
     \<Rightarrow> Engine \<Rightarrow> RuleMatch list \<times> Engine" where
  "evaluateEvent h validateFilePath resolve clock event eng =
     (let eng1 = eng\<lparr>stats := (stats eng)\<lparr>eventsObserved := eventsObserved (stats eng) + 1\<rparr>\<rparr>;
          absolutePath = resolve (watchDir eng1) (path event)
      in if \<not> validateFilePath absolutePath then ([], eng1)
         else
           (let rs = getEnabledRules (ruleStore eng1);
                eng2 = eng1\<lparr>stats := (stats eng1)\<lparr>rulesEvaluated :=
                                                     rulesEvaluated (stats eng1) + length rs\<rparr>\<rparr>
            in evaluateRules h clock event 0 rs eng2))"

section \<open>Example rules, stores and engines\<close>

text \<open>A compiled rule whose type, count and window do not follow the condition.\<close>

definition hallucinatedPattern :: CompiledRule where
  "hallucinatedPattern = \<lparr>ctype = ''pattern'',
     cmatch = \<lparr>pathIncludes = None, pathExcludes = None, extensions = Some [''.ts''],
               eventTypes = None\<rparr>,
     cwindowSeconds = Some 7, ccount = Some 99\<rparr>"

text \<open>A compiled rule with neither path fragments nor extensions.\<close>

definition broadRule :: CompiledRule where
  "broadRule = \<lparr>ctype = ''threshold'',
     cmatch = \<lparr>pathIncludes = Some [], pathExcludes = Some [''node_modules''], extensions = None,
               eventTypes = Some [''created'']\<rparr>,
     cwindowSeconds = Some 60, ccount = Some 3\<rparr>"

text \<open>
  What \<open>updateRule\<close> must leave alone: two rules agree on everything but name,
  description and the enabled flag.
\<close>

definition sameSemantics :: "Rule \<Rightarrow> Rule \<Rightarrow> bool" where
  "sameSemantics r r' =
     (rtype r' = rtype r \<and> rmatch r' = rmatch r \<and> windowSeconds r' = windowSeconds r \<and>
      count r' = count r \<and> rid r' = rid r \<and> createdAt r' = createdAt r \<and>
      source r' = source r \<and> originalCondition r' = originalCondition r \<and>
      matchCount r' = matchCount r \<and> lastMatched r' = lastMatched r \<and> action r' = action r)"

text \<open>An engine that holds one enabled pattern rule for TypeScript files.\<close>

definition tsEngine :: Engine where
  "tsEngine = \<lparr>ruleStore = \<lparr>version = 2, rules = [burstRule\<lparr>rtype := ''pattern''\<rparr>]\<rparr>,
     stats = \<lparr>eventsObserved = 0, rulesEvaluated = 0, matches = 0\<rparr>,
     recentMatches = [], recentMatchLimit = 100, thresholdWindows = Map.empty,
     watchDir = ''/watched''\<rparr>"

text \<open>A store holding the threshold rule, and an update that names every key of a rule.\<close>

definition oneRuleStore :: StoreData where
  "oneRuleStore = \<lparr>version = 2, rules = [burstRule]\<rparr>"

definition greedyUpdates :: RuleUpdates where
  "greedyUpdates = \<lparr>uId = Some ''rule_2'', uName = Some ''renamed'', uDescription = Some ''d'',
     uEnabled = Some False, uCreatedAt = Some 5, uLastMatched = Some 6, uMatchCount = Some 7,
     uType = Some ''pattern'', uMatch = Some srcTsCreated, uAction = Some ''drop'',
     uSource = Some ''llm'', uOriginalCondition = Some ''c'', uWindowSeconds = Some 10,
     uCount = Some 1\<rparr>"

section \<open>Rules that differ in presentation only\<close>





text \<open>
  \<open>normalEntries h v\<close> are the entries of the array \<open>v\<close> once trimmed and lower-cased,
  the empty ones left out. \<open>ordersStrings h ss\<close> says that the comparison of the host is a
  total order on the strings \<open>ss\<close>: any two of them compare, consistently, and only equal
  ones tie. \<open>ordersArrays h x\<close> says so of the entries of each array of the rule \<open>x\<close>.
\<close>

definition normalEntries :: "Host \<Rightarrow> string list option \<Rightarrow> string list" where
  "normalEntries h v =
     filter (\<lambda>s. s \<noteq> []) (map (\<lambda>s. hostLowerCase h (hostTrim h s)) (entries v))"

definition ordersStrings :: "Host \<Rightarrow> string list \<Rightarrow> bool" where
  "ordersStrings h ss =
     ((\<forall>a \<in> set ss. \<forall>b \<in> set ss. localeLe h a b \<or> localeLe h b a) \<and>
      (\<forall>a \<in> set ss. \<forall>b \<in> set ss. \<forall>c \<in> set ss.
         localeLe h a b \<and> localeLe h b c \<longrightarrow> localeLe h a c) \<and>
      (\<forall>a \<in> set ss. \<forall>b \<in> set ss. localeLe h a b \<and> localeLe h b a \<longrightarrow> a = b))"

definition ordersArrays :: "Host \<Rightarrow> CompiledRule \<Rightarrow> bool" where
  "ordersArrays h x =
     (ordersStrings h (normalEntries h (pathIncludes (cmatch x))) \<and>
      ordersStrings h (normalEntries h (pathExcludes (cmatch x))) \<and>
      ordersStrings h (normalEntries h (extensions (cmatch x))) \<and>
      ordersStrings h (normalEntries h (eventTypes (cmatch x))))"



text \<open>
  A host whose collation ignores the control characters that are not white space, as the
  root collation of ICU does: for it \<open>'a\u0001/'.localeCompare('a/')\<close> is \<open>0\<close>. Strings
  compare by what is left of them; the comparison is consistent, so the stable sort is
  determined by it. The case mapping and the trimming of this host are the ASCII ones.
  The two rules below have the same two entries in \<open>pathIncludes\<close>, in the two orders.
\<close>

definition isIgnorable :: "char \<Rightarrow> bool" where
  "isIgnorable c = (let n = (of_char c :: nat) in n < 9 \<or> (14 \<le> n \<and> n < 32))"

definition collationKey :: "string \<Rightarrow> string" where
  "collationKey s = filter (\<lambda>c. \<not> isIgnorable c) s"

definition controlBlindHost :: Host where
  "controlBlindHost =
     \<lparr>hostLowerCase = toLowerCase, hostTrim = trim,
      hostLocaleCompare = (\<lambda>a b. compareStrings (collationKey a) (collationKey b))\<rparr>"

definition tiedRuleA :: CompiledRule where
  "tiedRuleA = \<lparr>ctype = ''pattern'',
     cmatch = \<lparr>pathIncludes = Some [[CHR ''a'', CHR 0x01, CHR ''/''], ''a/''],
               pathExcludes = None, extensions = None, eventTypes = None\<rparr>,
     cwindowSeconds = None, ccount = None\<rparr>"


section \<open>The signature as JSON\<close>






section \<open>Properties of the rule engine\<close>

subsection \<open>Threshold rules\<close>

lemma evaluateRule_threshold:
  assumes "rtype r = ''threshold''" "count r = Some n" "windowSeconds r = Some w"
      and "matchesFilter h e (rmatch r)"
  shows "fst (evaluateRule h now e r tw) \<noteq> None \<longleftrightarrow> n \<le> int (length (retained now w (windowOf tw r)))"
    and "windowOf (snd (evaluateRule h now e r tw)) r =
           (if n \<le> int (length (retained now w (windowOf tw r))) then []
            else retained now w (windowOf tw r))"
  using assms by (simp_all add: evaluateRule_def windowOf_def retained_def Let_def)











lemma extname_src_a_ts: "extname ''src/a.ts'' = ''.ts''"
  by (simp add: extname_def)

lemma tsEvent_matches: "matchesFilter asciiHost tsEvent (rmatch burstRule)"
  by (simp add: matchesFilter_def asciiHost_def tsEvent_def burstRule_def present_def
      extname_src_a_ts toLowerCase_def lowerChar_def)



text \<open>
  The store gives a threshold rule the count 0 when the compiled rule has none, and the
  validator is what rejects counts below 1. Such a rule fires on every event that passes
  its filter.
\<close>

lemma threshold_count_below_one:
  assumes "rtype r = ''threshold''" "count r = Some n" "windowSeconds r = Some w" "n \<le> 0"
      and "matchesFilter h e (rmatch r)"
  shows "fst (evaluateRule h now e r tw) \<noteq> None"
  using evaluateRule_threshold(1)[OF assms(1-3) assms(5), where now = now and tw = tw] assms(4) by simp

subsection \<open>The match filter\<close>

lemma includesStr_iff: "includesStr s sub \<longleftrightarrow> (\<exists>ps ss. s = ps @ sub @ ss)"
proof (induction s)
  case Nil
  show ?case by auto
next
  case (Cons c cs)
  have pre: "startsWith (c # cs) sub \<longleftrightarrow> (\<exists>ss. c # cs = sub @ ss)"
    unfolding startsWith_def
    by (metis append_eq_conv_conj append_take_drop_id)
  have "(\<exists>ps ss. c # cs = ps @ sub @ ss) \<longleftrightarrow>
        (\<exists>ss. c # cs = sub @ ss) \<or> (\<exists>ps ss. cs = ps @ sub @ ss)"
  proof
    assume "\<exists>ps ss. c # cs = ps @ sub @ ss"
    then obtain ps ss where eq: "c # cs = ps @ sub @ ss" by blast
    show "(\<exists>ss. c # cs = sub @ ss) \<or> (\<exists>ps ss. cs = ps @ sub @ ss)"
    proof (cases ps)
      case Nil
      with eq show ?thesis by auto
    next
      case (Cons p ps')
      with eq have "cs = ps' @ sub @ ss" by simp
      then show ?thesis by blast
    qed
  next
    assume "(\<exists>ss. c # cs = sub @ ss) \<or> (\<exists>ps ss. cs = ps @ sub @ ss)"
    then show "\<exists>ps ss. c # cs = ps @ sub @ ss"
    proof
      assume "\<exists>ss. c # cs = sub @ ss"
      then obtain ss where "c # cs = [] @ sub @ ss" by auto
      then show ?thesis by blast
    next
      assume "\<exists>ps ss. cs = ps @ sub @ ss"
      then obtain ps ss where "cs = ps @ sub @ ss" by blast
      then have "c # cs = (c # ps) @ sub @ ss" by simp
      then show ?thesis by blast
    qed
  qed
  with pre Cons.IH show ?case by simp
qed

lemma present_entries: "present v \<longleftrightarrow> entries v \<noteq> []"
  by (simp add: present_def entries_def split: option.splits)

lemma present_the: "present v \<Longrightarrow> the v = entries v"
  by (simp add: present_def entries_def split: option.splits)

lemma matchesFilter_char:
  "matchesFilter h e m \<longleftrightarrow>
     (\<forall>exc \<in> set (entries (pathExcludes m)).
        \<not> (\<exists>ps ss. hostLowerCase h (path e) = ps @ hostLowerCase h exc @ ss)) \<and>
     (entries (pathIncludes m) \<noteq> [] \<longrightarrow>
        (\<exists>inc \<in> set (entries (pathIncludes m)).
           \<exists>ps ss. hostLowerCase h (path e) = ps @ hostLowerCase h inc @ ss)) \<and>
     (entries (extensions m) \<noteq> [] \<longrightarrow>
        hostLowerCase h (extname (path e)) \<in> hostLowerCase h ` set (entries (extensions m))) \<and>
     (entries (eventTypes m) \<noteq> [] \<longrightarrow> etype e \<in> set (entries (eventTypes m)))"
proof -
  have exc: "(present (pathExcludes m) \<and>
         list_ex (\<lambda>exc. includesStr (hostLowerCase h (path e)) (hostLowerCase h exc))
           (the (pathExcludes m)))
        \<longleftrightarrow> \<not> (\<forall>exc \<in> set (entries (pathExcludes m)).
        \<not> (\<exists>ps ss. hostLowerCase h (path e) = ps @ hostLowerCase h exc @ ss))"
    by (cases "pathExcludes m")
       (auto simp: present_def entries_def list_ex_iff includesStr_iff)
  have inc: "(present (pathIncludes m) \<and>
         \<not> list_ex (\<lambda>inc. includesStr (hostLowerCase h (path e)) (hostLowerCase h inc))
           (the (pathIncludes m)))
        \<longleftrightarrow> \<not> (entries (pathIncludes m) \<noteq> [] \<longrightarrow>
        (\<exists>inc \<in> set (entries (pathIncludes m)).
           \<exists>ps ss. hostLowerCase h (path e) = ps @ hostLowerCase h inc @ ss))"
    by (cases "pathIncludes m")
       (auto simp: present_def entries_def list_ex_iff includesStr_iff)
  have ext: "(present (extensions m) \<and>
         \<not> List.member (map (hostLowerCase h) (the (extensions m)))
             (hostLowerCase h (extname (path e))))
        \<longleftrightarrow> \<not> (entries (extensions m) \<noteq> [] \<longrightarrow>
        hostLowerCase h (extname (path e)) \<in> hostLowerCase h ` set (entries (extensions m)))"
    by (cases "extensions m") (auto simp: present_def entries_def)
  have evt: "(present (eventTypes m) \<and> \<not> List.member (the (eventTypes m)) (etype e))
        \<longleftrightarrow> \<not> (entries (eventTypes m) \<noteq> [] \<longrightarrow> etype e \<in> set (entries (eventTypes m)))"
    by (cases "eventTypes m") (auto simp: present_def entries_def)
  show ?thesis
    unfolding matchesFilter_def Let_def exc inc ext evt by auto
qed

lemma lowersAscii_asciiHost: "lowersAscii asciiHost"
  by (simp add: lowersAscii_def asciiHost_def)

lemma srcTsCreated_examples:
  assumes "lowersAscii h"
  shows "matchesFilter h \<lparr>etype = ''created'', path = ''src/app.ts'', timestamp = t1\<rparr> srcTsCreated"
    and "\<not> matchesFilter h \<lparr>etype = ''modified'', path = ''src/app.ts'', timestamp = t2\<rparr> srcTsCreated"
    and "\<not> matchesFilter h \<lparr>etype = ''created'', path = ''lib/app.ts'', timestamp = t3\<rparr> srcTsCreated"
proof -
  have ext: "extname ''src/app.ts'' = ''.ts''" by (simp add: extname_def)
  have ext2: "extname ''lib/app.ts'' = ''.ts''" by (simp add: extname_def)
  have low: "\<And>s. list_all isAscii s \<Longrightarrow> hostLowerCase h s = toLowerCase s"
    using assms by (simp add: lowersAscii_def)
  have l1: "hostLowerCase h ''src/app.ts'' = ''src/app.ts''"
    by (subst low) (simp_all add: isAscii_def toLowerCase_def lowerChar_def)
  have l2: "hostLowerCase h ''lib/app.ts'' = ''lib/app.ts''"
    by (subst low) (simp_all add: isAscii_def toLowerCase_def lowerChar_def)
  have l3: "hostLowerCase h ''src/'' = ''src/''"
    by (subst low) (simp_all add: isAscii_def toLowerCase_def lowerChar_def)
  have l4: "hostLowerCase h ''.ts'' = ''.ts''"
    by (subst low) (simp_all add: isAscii_def toLowerCase_def lowerChar_def)
  show "matchesFilter h \<lparr>etype = ''created'', path = ''src/app.ts'', timestamp = t1\<rparr> srcTsCreated"
    by (simp add: matchesFilter_def srcTsCreated_def present_def ext l1 l3 l4 startsWith_def)
  show "\<not> matchesFilter h \<lparr>etype = ''modified'', path = ''src/app.ts'', timestamp = t2\<rparr> srcTsCreated"
    by (simp add: matchesFilter_def srcTsCreated_def present_def ext l1 l3 l4 startsWith_def)
  show "\<not> matchesFilter h \<lparr>etype = ''created'', path = ''lib/app.ts'', timestamp = t3\<rparr> srcTsCreated"
    by (simp add: matchesFilter_def srcTsCreated_def present_def ext2 l2 l3 l4 startsWith_def)
qed

text \<open>
  Claim C2. For every lower-casing function of the host (\<open>String.prototype.toLowerCase\<close>),
  \<open>matchesFilter\<close> holds exactly when no \<open>pathExcludes\<close> fragment occurs in the path, some
  \<open>pathIncludes\<close> fragment occurs in it if there are any, the extension of the path is
  among the \<open>extensions\<close> if there are any (all three compared after lower-casing both
  sides), and the event's type is among the \<open>eventTypes\<close> if there are any. A pattern rule
  fires exactly when its filter matches. On a host that lower-cases ASCII strings in the
  usual way, the filter with \<open>src/\<close>, \<open>.ts\<close> and \<open>created\<close> matches the creation of
  \<open>src/app.ts\<close>, but neither its modification nor the creation of \<open>lib/app.ts\<close>.
\<close>

theorem matchesFilter_conjunction:
  "(\<forall>h e m. matchesFilter h e m \<longleftrightarrow>
     (\<forall>exc \<in> set (entries (pathExcludes m)).
        \<not> (\<exists>ps ss. hostLowerCase h (path e) = ps @ hostLowerCase h exc @ ss)) \<and>
     (entries (pathIncludes m) \<noteq> [] \<longrightarrow>
        (\<exists>inc \<in> set (entries (pathIncludes m)).
           \<exists>ps ss. hostLowerCase h (path e) = ps @ hostLowerCase h inc @ ss)) \<and>
     (entries (extensions m) \<noteq> [] \<longrightarrow>
        hostLowerCase h (extname (path e)) \<in> hostLowerCase h ` set (entries (extensions m))) \<and>
     (entries (eventTypes m) \<noteq> [] \<longrightarrow> etype e \<in> set (entries (eventTypes m)))) \<and>
   (\<forall>h now e r tw. rtype r = ''pattern'' \<longrightarrow>
      (fst (evaluateRule h now e r tw) \<noteq> None \<longleftrightarrow> matchesFilter h e (rmatch r))) \<and>
   (\<forall>h. lowersAscii h \<longrightarrow>
      matchesFilter h \<lparr>etype = ''created'', path = ''src/app.ts'', timestamp = t1\<rparr> srcTsCreated \<and>
      \<not> matchesFilter h \<lparr>etype = ''modified'', path = ''src/app.ts'', timestamp = t2\<rparr> srcTsCreated \<and>
      \<not> matchesFilter h \<lparr>etype = ''created'', path = ''lib/app.ts'', timestamp = t3\<rparr> srcTsCreated)"
proof (intro conjI allI impI)
  fix h e m
  show "matchesFilter h e m \<longleftrightarrow>
     (\<forall>exc \<in> set (entries (pathExcludes m)).
        \<not> (\<exists>ps ss. hostLowerCase h (path e) = ps @ hostLowerCase h exc @ ss)) \<and>
     (entries (pathIncludes m) \<noteq> [] \<longrightarrow>
        (\<exists>inc \<in> set (entries (pathIncludes m)).
           \<exists>ps ss. hostLowerCase h (path e) = ps @ hostLowerCase h inc @ ss)) \<and>
     (entries (extensions m) \<noteq> [] \<longrightarrow>
        hostLowerCase h (extname (path e)) \<in> hostLowerCase h ` set (entries (extensions m))) \<and>
     (entries (eventTypes m) \<noteq> [] \<longrightarrow> etype e \<in> set (entries (eventTypes m)))"
    by (rule matchesFilter_char)
next
  fix h now e tw and r :: Rule
  assume "rtype r = ''pattern''"
  then show "fst (evaluateRule h now e r tw) \<noteq> None \<longleftrightarrow> matchesFilter h e (rmatch r)"
    by (simp add: evaluateRule_def Let_def)
next
  fix h assume "lowersAscii h"
  then show "matchesFilter h \<lparr>etype = ''created'', path = ''src/app.ts'', timestamp = t1\<rparr> srcTsCreated"
    by (rule srcTsCreated_examples)
next
  fix h assume "lowersAscii h"
  then show "\<not> matchesFilter h \<lparr>etype = ''modified'', path = ''src/app.ts'', timestamp = t2\<rparr> srcTsCreated"
    by (rule srcTsCreated_examples)
next
  fix h assume "lowersAscii h"
  then show "\<not> matchesFilter h \<lparr>etype = ''created'', path = ''lib/app.ts'', timestamp = t3\<rparr> srcTsCreated"
    by (rule srcTsCreated_examples)
qed

theorem matchesFilter_conjunction_witness:
  "lowersAscii asciiHost \<and>
   entries (pathIncludes srcTsCreated) \<noteq> [] \<and> entries (extensions srcTsCreated) \<noteq> [] \<and>
   entries (eventTypes srcTsCreated) \<noteq> [] \<and>
   (\<exists>inc \<in> set (entries (pathIncludes srcTsCreated)).
      \<exists>ps ss. hostLowerCase asciiHost ''src/app.ts'' = ps @ hostLowerCase asciiHost inc @ ss) \<and>
   hostLowerCase asciiHost (extname ''src/app.ts'')
     \<in> hostLowerCase asciiHost ` set (entries (extensions srcTsCreated)) \<and>
   ''created'' \<in> set (entries (eventTypes srcTsCreated)) \<and>
   fst (evaluateRule asciiHost 0 \<lparr>etype = ''created'', path = ''src/app.ts'', timestamp = 0\<rparr>
      (burstRule\<lparr>rtype := ''pattern'', rmatch := srcTsCreated\<rparr>) Map.empty) \<noteq> None \<and>
   \<not> matchesFilter asciiHost \<lparr>etype = ''modified'', path = ''src/app.ts'', timestamp = 0\<rparr>
      srcTsCreated"
proof -
  note main = matchesFilter_conjunction[of 0 0 0]
  let ?e = "\<lparr>etype = ''created'', path = ''src/app.ts'', timestamp = 0\<rparr>"
  note ex = main[THEN conjunct2, THEN conjunct2, rule_format, OF lowersAscii_asciiHost]
  have m: "matchesFilter asciiHost ?e srcTsCreated"
    using ex by blast
  have nm: "\<not> matchesFilter asciiHost \<lparr>etype = ''modified'', path = ''src/app.ts'', timestamp = 0\<rparr>
      srcTsCreated"
    using ex by blast
  have ne: "entries (pathIncludes srcTsCreated) \<noteq> []" "entries (extensions srcTsCreated) \<noteq> []"
    "entries (eventTypes srcTsCreated) \<noteq> []"
    by (simp_all add: srcTsCreated_def entries_def)
  have char: "(\<exists>inc \<in> set (entries (pathIncludes srcTsCreated)).
      \<exists>ps ss. hostLowerCase asciiHost (path ?e) = ps @ hostLowerCase asciiHost inc @ ss) \<and>
     hostLowerCase asciiHost (extname (path ?e))
       \<in> hostLowerCase asciiHost ` set (entries (extensions srcTsCreated)) \<and>
     etype ?e \<in> set (entries (eventTypes srcTsCreated))"
    using main[THEN conjunct1, rule_format, where h = asciiHost and e = ?e and m = srcTsCreated]
      m ne by blast
  have fire: "fst (evaluateRule asciiHost 0 ?e
      (burstRule\<lparr>rtype := ''pattern'', rmatch := srcTsCreated\<rparr>) Map.empty) \<noteq> None"
    using main[THEN conjunct2, THEN conjunct1, rule_format,
        where r = "burstRule\<lparr>rtype := ''pattern'', rmatch := srcTsCreated\<rparr>" and now = 0
          and e = ?e and tw = Map.empty and h = asciiHost] m
    by simp
  show ?thesis using lowersAscii_asciiHost ne char fire nm by simp
qed

section \<open>Properties of the intent extractor\<close>

subsection \<open>Offsets of matches\<close>

text \<open>A match starting at an offset of the string ends between that offset and the end of the string.\<close>

lemma rep_bounds:
  "(j, c') \<in> set (rep body n lo hi i c) \<Longrightarrow> i \<le> n \<Longrightarrow> i \<le> j \<and> j \<le> n"
proof (induction body n lo hi i c arbitrary: j c' rule: rep.induct)
  case (1 body n lo hi i c)
  show ?case
  proof (cases "hi = Some 0")
    case True
    then have "rep body n lo hi i c = [(i, c)]" by (subst rep.simps) simp
    then show ?thesis using "1.prems" by simp
  next
    case False
    let ?step = "\<lambda>(k, d). if (if lo = 0 then i < k else i \<le> k) \<and> k \<le> n
                   then rep body n (lo - 1) (map_option (\<lambda>h. h - 1) hi) k d else []"
    have mem: "(j, c') \<in> set (concat (map ?step (body i c))) \<or> (j, c') = (i, c)"
      using "1.prems"(1) False
      by (simp add: rep.simps[of body n lo hi i c] Let_def split: if_splits) blast?
    show ?thesis
    proof (rule disjE[OF mem])
      assume "(j, c') \<in> set (concat (map ?step (body i c)))"
      then obtain k d where kd: "(k, d) \<in> set (body i c)" and in_step: "(j, c') \<in> set (?step (k, d))"
        by auto
      then have g: "(if lo = 0 then i < k else i \<le> k) \<and> k \<le> n"
        and r: "(j, c') \<in> set (rep body n (lo - 1) (map_option (\<lambda>h. h - 1) hi) k d)"
        by (auto split: if_splits)
      have "k \<le> j \<and> j \<le> n"
        using "1.IH"[OF False kd _ g r] g by simp
      moreover have "i \<le> k" using g by (auto split: if_splits)
      ultimately show ?thesis by simp
    next
      assume "(j, c') = (i, c)"
      then show ?thesis using "1.prems"(2) by simp
    qed
  qed
qed

lemma rmatch_at_bounds:
  "(j, c') \<in> set (rmatch_at ic s r i c) \<Longrightarrow> i \<le> length s \<Longrightarrow> i \<le> j \<and> j \<le> length s"
proof (induction r arbitrary: i j c c')
  case (Seq a b)
  from Seq.prems(1) obtain k d where k: "(k, d) \<in> set (rmatch_at ic s a i c)"
    and j: "(j, c') \<in> set (rmatch_at ic s b k d)" by auto
  have 1: "i \<le> k \<and> k \<le> length s" using Seq.IH(1)[OF k Seq.prems(2)] .
  have 2: "k \<le> j \<and> j \<le> length s" using Seq.IH(2)[OF j] 1 by simp
  show ?case using 1 2 by simp
next
  case (Rep a lo hi)
  then show ?case using rep_bounds[of j c' "\<lambda>j c'. rmatch_at ic s a j c'" "length s" lo hi i c] by simp
qed (auto split: if_splits)

text \<open>
  Hence the tests on the offsets in \<open>rep\<close> never discard a result of a pattern: what
  remains of them is the rule that an optional iteration must consume something.
\<close>

lemma rmatch_at_Rep:
  assumes "i \<le> length s"
  shows "rmatch_at ic s (Rep a lo hi) i c =
     (if hi = Some 0 then [(i, c)]
      else
        (let iter = concat (map (\<lambda>(j, c').
                      if lo = 0 \<and> j = i then []
                      else rmatch_at ic s (Rep a (lo - 1) (map_option (\<lambda>h. h - 1) hi)) j c')
                    (rmatch_at ic s a i c))
         in if lo \<noteq> 0 then iter else iter @ [(i, c)]))"
proof -
  have "map (\<lambda>(j, c').
              if (if lo = 0 then i < j else i \<le> j) \<and> j \<le> length s
              then rep (\<lambda>j c'. rmatch_at ic s a j c') (length s) (lo - 1) (map_option (\<lambda>h. h - 1) hi) j c'
              else []) (rmatch_at ic s a i c) =
        map (\<lambda>(j, c').
              if lo = 0 \<and> j = i then []
              else rmatch_at ic s (Rep a (lo - 1) (map_option (\<lambda>h. h - 1) hi)) j c')
            (rmatch_at ic s a i c)"
  proof (rule map_cong[OF refl])
    fix x
    assume x: "x \<in> set (rmatch_at ic s a i c)"
    obtain j c' where jc: "x = (j, c')" by (cases x)
    have b: "i \<le> j \<and> j \<le> length s"
      using rmatch_at_bounds[OF _ assms, of j c' ic a c] x jc by simp
    show "(case x of (j, c') \<Rightarrow>
              if (if lo = 0 then i < j else i \<le> j) \<and> j \<le> length s
              then rep (\<lambda>j c'. rmatch_at ic s a j c') (length s) (lo - 1) (map_option (\<lambda>h. h - 1) hi) j c'
              else []) =
          (case x of (j, c') \<Rightarrow>
              if lo = 0 \<and> j = i then []
              else rmatch_at ic s (Rep a (lo - 1) (map_option (\<lambda>h. h - 1) hi)) j c')"
      using b by (auto simp: jc)
  qed
  then show ?thesis
    unfolding rmatch_at.simps
    by (subst rep.simps) (simp only:)
qed

subsection \<open>What the whole-word literals match\<close>

lemma take_drop_Cons:
  "take (Suc n) (drop i s) = a # w \<longleftrightarrow> i < length s \<and> s ! i = a \<and> take n (drop (Suc i) s) = w"
proof (cases "i < length s")
  case True
  then have "drop i s = s ! i # drop (Suc i) s" by (simp add: Cons_nth_drop_Suc)
  then show ?thesis using True by auto
next
  case False
  then show ?thesis by simp
qed

lemma rmatch_at_lit:
  "rmatch_at False s (lit w) i c =
     (if take (length w) (drop i s) = w then [(i + length w, c)] else [])"
proof (induction w arbitrary: i)
  case Nil
  show ?case by simp
next
  case (Cons a w)
  show ?case
    by (auto simp: Cons take_drop_Cons eqChar_def)
qed

lemma rmatch_at_words:
  "set (rmatch_at False s (words ws) i c) =
     {(i + length w, c) | w. w \<in> set ws \<and> take (length w) (drop i s) = w}"
proof (induction ws rule: induct_list012)
  case 1
  show ?case by (simp add: words_def inClass_def inRanges_def)
next
  case (2 w)
  show ?case by (auto simp: words_def rmatch_at_lit)
next
  case (3 w v ws)
  have "set (rmatch_at False s (words (w # v # ws)) i c) =
          set (rmatch_at False s (lit w) i c) \<union> set (rmatch_at False s (words (v # ws)) i c)"
    by (simp add: words_def)
  then show ?case using 3(2) by (auto simp: rmatch_at_lit)
qed

lemma rmatch_at_wholeWord:
  "rmatch_at False s (wholeWord ws) i [] \<noteq> [] \<longleftrightarrow>
     isWordBoundary s i \<and>
     (\<exists>w \<in> set ws. take (length w) (drop i s) = w \<and> isWordBoundary s (i + length w))"
proof -
  have "rmatch_at False s (wholeWord ws) i [] \<noteq> [] \<longleftrightarrow>
          isWordBoundary s i \<and>
          (\<exists>(j, c) \<in> set (rmatch_at False s (words ws) i []). isWordBoundary s j)"
    by (auto simp: wholeWord_def split: prod.splits)
  also have "\<dots> \<longleftrightarrow> isWordBoundary s i \<and>
     (\<exists>w \<in> set ws. take (length w) (drop i s) = w \<and> isWordBoundary s (i + length w))"
    unfolding rmatch_at_words by auto
  finally show ?thesis .
qed

lemma execFrom_None:
  "execFrom ic r s is = None \<longleftrightarrow> (\<forall>i \<in> set is. rmatch_at ic s r i [] = [])"
  by (induction "is") (auto split: list.splits)

lemma regexTest_iff:
  "regexTest ic r s \<longleftrightarrow> (\<exists>i \<le> length s. rmatch_at ic s r i [] \<noteq> [])"
proof -
  have "set [0..<Suc (length s)] = {i. i \<le> length s}" by auto
  then show ?thesis
    by (simp add: regexTest_def regexExec_def execFrom_None)
qed

lemma boundary_before_word:
  assumes "i < length s" "isWordChar (s ! i)"
  shows "isWordBoundary s i \<longleftrightarrow> (take i s = [] \<or> \<not> isWordChar (last (take i s)))"
proof (cases i)
  case 0
  then show ?thesis using assms by (simp add: isWordBoundary_def)
next
  case (Suc k)
  then have "last (take i s) = s ! k"
    using assms(1) by (simp add: take_Suc_conv_app_nth)
  then show ?thesis using assms Suc by (auto simp: isWordBoundary_def)
qed

lemma boundary_after_word:
  assumes "0 < j" "j \<le> length s" "isWordChar (s ! (j - 1))"
  shows "isWordBoundary s j \<longleftrightarrow> (drop j s = [] \<or> \<not> isWordChar (hd (drop j s)))"
proof (cases "j < length s")
  case True
  then have "hd (drop j s) = s ! j" by (simp add: hd_drop_conv_nth)
  then show ?thesis using assms True by (auto simp: isWordBoundary_def)
next
  case False
  then show ?thesis using assms by (auto simp: isWordBoundary_def)
qed

lemma wholeWord_at:
  assumes w: "w \<noteq> []" "list_all isWordChar w"
  shows "(\<exists>i \<le> length s. isWordBoundary s i \<and> take (length w) (drop i s) = w \<and>
            isWordBoundary s (i + length w)) \<longleftrightarrow> containsWord s w"
proof
  assume "\<exists>i \<le> length s. isWordBoundary s i \<and> take (length w) (drop i s) = w \<and>
            isWordBoundary s (i + length w)"
  then obtain i where i: "i \<le> length s" "isWordBoundary s i" "take (length w) (drop i s) = w"
    "isWordBoundary s (i + length w)" by blast
  let ?j = "i + length w"
  have len: "?j \<le> length s"
    using i(3) by (metis add.commute le_diff_conv length_drop length_take min.cobounded2 i(1)
        Nat.le_diff_conv2 min_def nat_le_linear)
  have s: "s = take i s @ w @ drop ?j s"
    using i(3) by (metis append_take_drop_id drop_drop add.commute)
  have nth: "\<And>k. k < length w \<Longrightarrow> s ! (i + k) = w ! k"
    using i(3) len by (metis nth_drop nth_take i(1))
  have wc: "\<And>k. k < length w \<Longrightarrow> isWordChar (w ! k)"
    using w(2) by (simp add: list_all_length)
  have lw: "0 < length w" using w(1) by simp
  have first: "isWordChar (s ! i)" using nth[of 0] wc[of 0] lw by simp
  have last: "isWordChar (s ! (?j - 1))"
    using nth[of "length w - 1"] wc[of "length w - 1"] lw
    by (simp add: Nat.add_diff_assoc)
  have ilt: "i < length s" using len lw by linarith
  have b1: "take i s = [] \<or> \<not> isWordChar (List.last (take i s))"
    using boundary_before_word[OF ilt first] i(2) by simp
  have b2: "drop ?j s = [] \<or> \<not> isWordChar (hd (drop ?j s))"
    using boundary_after_word[of ?j s] lw len last i(4) by simp
  show "containsWord s w"
    unfolding containsWord_def using s b1 b2 by blast
next
  assume "containsWord s w"
  then obtain ps ss where s: "s = ps @ w @ ss"
    and b1: "ps = [] \<or> \<not> isWordChar (last ps)"
    and b2: "ss = [] \<or> \<not> isWordChar (hd ss)"
    unfolding containsWord_def by blast
  let ?i = "length ps"
  have lw: "0 < length w" using w(1) by simp
  have wc: "\<And>k. k < length w \<Longrightarrow> isWordChar (w ! k)"
    using w(2) by (simp add: list_all_length)
  have tk: "take (length w) (drop ?i s) = w" using s by simp
  have ilt: "?i < length s" using s lw by simp
  have first: "isWordChar (s ! ?i)"
    using s wc[of 0] lw by (simp add: nth_append)
  have jle: "?i + length w \<le> length s" using s by simp
  have last: "isWordChar (s ! (?i + length w - 1))"
  proof -
    have "?i + length w - 1 = ?i + (length w - 1)" using w(1) by (cases w) simp_all
    then have "s ! (?i + length w - 1) = (w @ ss) ! (length w - 1)"
      using s by (metis nth_append_length_plus)
    then have "s ! (?i + length w - 1) = w ! (length w - 1)"
      using lw by (simp add: nth_append)
    then show ?thesis using wc[of "length w - 1"] lw by simp
  qed
  have tki: "take ?i s = ps" using s by simp
  have drj: "drop (?i + length w) s = ss" using s by simp
  have c1: "isWordBoundary s ?i"
    using boundary_before_word[OF ilt first] b1 tki by simp
  have c2: "isWordBoundary s (?i + length w)"
    using boundary_after_word[of "?i + length w" s] lw jle last b2 drj by simp
  show "\<exists>i \<le> length s. isWordBoundary s i \<and> take (length w) (drop i s) = w \<and>
            isWordBoundary s (i + length w)"
    using c1 c2 tk ilt by (intro exI[of _ ?i]) simp
qed

lemma regexTest_wholeWord:
  assumes "\<forall>w \<in> set ws. w \<noteq> [] \<and> list_all isWordChar w"
  shows "regexTest False (wholeWord ws) s \<longleftrightarrow> (\<exists>w \<in> set ws. containsWord s w)"
proof -
  have "regexTest False (wholeWord ws) s \<longleftrightarrow>
        (\<exists>w \<in> set ws. \<exists>i \<le> length s. isWordBoundary s i \<and> take (length w) (drop i s) = w \<and>
            isWordBoundary s (i + length w))"
    unfolding regexTest_iff rmatch_at_wholeWord by blast
  also have "\<dots> \<longleftrightarrow> (\<exists>w \<in> set ws. containsWord s w)"
    using assms wholeWord_at by (metis (no_types, lifting))
  finally show ?thesis .
qed

subsection \<open>Event types of the intent\<close>

lemma synonyms_wordlike:
  "\<forall>w \<in> set deleteSynonyms. w \<noteq> [] \<and> list_all isWordChar w"
  "\<forall>w \<in> set createSynonyms. w \<noteq> [] \<and> list_all isWordChar w"
  "\<forall>w \<in> set modifySynonyms. w \<noteq> [] \<and> list_all isWordChar w"
  "\<forall>w \<in> set changeSynonyms. w \<noteq> [] \<and> list_all isWordChar w"
  by (simp_all add: deleteSynonyms_def createSynonyms_def modifySynonyms_def changeSynonyms_def
      isWordChar_def inRanges_def)

lemma mentions_test:
  "mentions deleteSynonyms c \<longleftrightarrow> regexTest False deleteWords (toLowerCase c)"
  "mentions createSynonyms c \<longleftrightarrow> regexTest False createWords (toLowerCase c)"
  "mentions modifySynonyms c \<longleftrightarrow> regexTest False modifyWords (toLowerCase c)"
  "mentions changeSynonyms c \<longleftrightarrow> regexTest False changeWords (toLowerCase c)"
  by (simp_all add: mentions_def deleteWords_def createWords_def modifyWords_def changeWords_def
      regexTest_wholeWord[OF synonyms_wordlike(1)] regexTest_wholeWord[OF synonyms_wordlike(2)]
      regexTest_wholeWord[OF synonyms_wordlike(3)] regexTest_wholeWord[OF synonyms_wordlike(4)])

lemma extractIntent_iEventTypes_raw:
  "iEventTypes (extractIntent c) =
     (let text = toLowerCase c;
          sawDelete = regexTest False deleteWords text;
          sawCreate = regexTest False createWords text;
          sawModify = regexTest False modifyWords text;
          sawChange = regexTest False changeWords text;
          ev1 = (if sawDelete then setAdd [] ''deleted'' else []);
          ev2 = (if sawCreate then setAdd ev1 ''created'' else ev1);
          ev3 = (if sawModify then setAdd ev2 ''modified'' else ev2);
          ev4 = (if sawChange then
                   (if \<not> sawDelete \<and> \<not> sawCreate \<and> \<not> sawModify
                    then setAdd (setAdd ev3 ''created'') ''modified''
                    else if \<not> List.member ev3 ''modified'' then setAdd ev3 ''modified''
                    else ev3)
                 else ev3)
      in filter (\<lambda>eventType. List.member ev4 eventType) EVENT_ORDER)"
  by (simp only: extractIntent_def Let_def RuleIntent.select_convs)

lemma extractIntent_iEventTypes:
  "iEventTypes (extractIntent c) =
     (let text = toLowerCase c;
          sawDelete = regexTest False deleteWords text;
          sawCreate = regexTest False createWords text;
          sawModify = regexTest False modifyWords text;
          sawChange = regexTest False changeWords text
      in (if sawCreate \<or> (sawChange \<and> \<not> sawDelete \<and> \<not> sawModify) then [''created''] else []) @
         (if sawModify \<or> sawChange then [''modified''] else []) @
         (if sawDelete then [''deleted''] else []))"
  unfolding extractIntent_iEventTypes_raw
  by (simp add: Let_def setAdd_def EVENT_ORDER_def)

lemma extractIntent_iEventTypes_ordered: "subseq (iEventTypes (extractIntent c)) EVENT_ORDER"
  unfolding extractIntent_iEventTypes_raw Let_def by (rule subseq_filter_left)

lemma changeCondition_lower:
  "toLowerCase changeCondition = ''alert when typescript files change''"
  unfolding changeCondition_def by code_simp

lemma changeDeleteCondition_lower:
  "toLowerCase changeDeleteCondition = ''files changed or deleted''"
  unfolding changeDeleteCondition_def by code_simp

lemma changeCondition_tests:
  "regexTest False changeWords ''alert when typescript files change''"
  "\<not> regexTest False deleteWords ''alert when typescript files change''"
  "\<not> regexTest False createWords ''alert when typescript files change''"
  "\<not> regexTest False modifyWords ''alert when typescript files change''"
  by code_simp+

lemma changeDeleteCondition_tests:
  "regexTest False changeWords ''files changed or deleted''"
  "regexTest False deleteWords ''files changed or deleted''"
  "\<not> regexTest False createWords ''files changed or deleted''"
  "\<not> regexTest False modifyWords ''files changed or deleted''"
  by code_simp+

text \<open>
  Claim C3. A condition that mentions a "change" synonym and no delete, create or modify
  synonym has the event types \<open>[created, modified]\<close>; one that mentions a "change"
  synonym and a delete synonym, and no create or modify synonym, has
  \<open>[modified, deleted]\<close>; and the event types of every condition are listed in the order
  created, modified, deleted.
\<close>

theorem extractIntent_eventTypes:
  "(mentions changeSynonyms c \<and> \<not> mentions deleteSynonyms c \<and>
    \<not> mentions createSynonyms c \<and> \<not> mentions modifySynonyms c
      \<longrightarrow> iEventTypes (extractIntent c) = [''created'', ''modified'']) \<and>
   (mentions changeSynonyms c \<and> mentions deleteSynonyms c \<and>
    \<not> mentions createSynonyms c \<and> \<not> mentions modifySynonyms c
      \<longrightarrow> iEventTypes (extractIntent c) = [''modified'', ''deleted'']) \<and>
   subseq (iEventTypes (extractIntent c)) EVENT_ORDER"
  using extractIntent_iEventTypes_ordered[of c]
  by (simp add: mentions_test extractIntent_iEventTypes Let_def)

theorem extractIntent_eventTypes_witness:
  "mentions changeSynonyms changeCondition \<and> \<not> mentions deleteSynonyms changeCondition \<and>
   \<not> mentions createSynonyms changeCondition \<and> \<not> mentions modifySynonyms changeCondition \<and>
   iEventTypes (extractIntent changeCondition) = [''created'', ''modified''] \<and>
   mentions changeSynonyms changeDeleteCondition \<and> mentions deleteSynonyms changeDeleteCondition \<and>
   \<not> mentions createSynonyms changeDeleteCondition \<and>
   \<not> mentions modifySynonyms changeDeleteCondition \<and>
   iEventTypes (extractIntent changeDeleteCondition) = [''modified'', ''deleted'']"
proof -
  have a: "mentions changeSynonyms changeCondition \<and> \<not> mentions deleteSynonyms changeCondition \<and>
      \<not> mentions createSynonyms changeCondition \<and> \<not> mentions modifySynonyms changeCondition"
    by (simp add: mentions_test changeCondition_lower changeCondition_tests)
  have b: "mentions changeSynonyms changeDeleteCondition \<and>
      mentions deleteSynonyms changeDeleteCondition \<and>
      \<not> mentions createSynonyms changeDeleteCondition \<and>
      \<not> mentions modifySynonyms changeDeleteCondition"
    by (simp add: mentions_test changeDeleteCondition_lower changeDeleteCondition_tests)
  from a extractIntent_eventTypes[of changeCondition]
  have a': "iEventTypes (extractIntent changeCondition) = [''created'', ''modified'']" by blast
  from b extractIntent_eventTypes[of changeDeleteCondition]
  have b': "iEventTypes (extractIntent changeDeleteCondition) = [''modified'', ''deleted'']"
    by blast
  from a b a' b' show ?thesis by blast
qed

subsection \<open>Count, window and path fragments\<close>

lemma extractIntent_iCount: "iCount (extractIntent c) = parseThresholdCount (toLowerCase c)"
  by (simp only: extractIntent_def Let_def RuleIntent.select_convs)

lemma extractIntent_iWindowSeconds:
  "iWindowSeconds (extractIntent c) = parseWindowSeconds (toLowerCase c)"
  by (simp only: extractIntent_def Let_def RuleIntent.select_convs)

lemma extractIntent_iPathIncludes:
  "iPathIncludes (extractIntent c) =
     addPathTokens
       (addPathTokens []
          (map (\<lambda>m. the (captured (toLowerCase c) m 1)) (matchAll True pathPattern (toLowerCase c))))
       (map (\<lambda>m. the (captured (toLowerCase c) m 2)) (matchAll True phrasePattern (toLowerCase c)))"
  by (simp only: extractIntent_def Let_def RuleIntent.select_convs)

lemma testsCondition_lower:
  "toLowerCase testsCondition = ''if 3 or more files under __tests__/ are changed within 5 minutes''"
  unfolding testsCondition_def by code_simp

lemma testsCondition_count:
  "parseThresholdCount ''if 3 or more files under __tests__/ are changed within 5 minutes'' = Some 3"
  by code_simp

lemma testsCondition_window:
  "parseWindowSeconds ''if 3 or more files under __tests__/ are changed within 5 minutes'' = Some 300"
  by code_simp

lemma testsCondition_pathTokens:
  "map (\<lambda>m. the (captured ''if 3 or more files under __tests__/ are changed within 5 minutes'' m 1))
     (matchAll True pathPattern ''if 3 or more files under __tests__/ are changed within 5 minutes'')
     = [''__tests__/'']"
  by code_simp

lemma testsCondition_phraseTokens:
  "map (\<lambda>m. the (captured ''if 3 or more files under __tests__/ are changed within 5 minutes'' m 2))
     (matchAll True phrasePattern ''if 3 or more files under __tests__/ are changed within 5 minutes'')
     = [''__tests__'', ''5'']"
  by code_simp

lemma testsCondition_paths:
  "addPathTokens (addPathTokens [] [''__tests__/'']) [''__tests__'', ''5''] = [''__tests__/'']"
  by code_simp

lemma testsCondition_intent:
  "iCount (extractIntent testsCondition) = Some 3"
  "iWindowSeconds (extractIntent testsCondition) = Some 300"
  by (simp_all only: extractIntent_iCount extractIntent_iWindowSeconds testsCondition_lower
      testsCondition_count testsCondition_window)

text \<open>
  Claim C4. For the condition "If 3 or more files under __tests__/ are changed within 5
  minutes" the intent has count 3 and a window of 300 seconds, and its path fragments
  contain \<open>__tests__/\<close> (they are exactly that fragment).
\<close>

theorem extractIntent_tests_example:
  "iCount (extractIntent ''If 3 or more files under __tests__/ are changed within 5 minutes'') = Some 3 \<and>
   iWindowSeconds (extractIntent ''If 3 or more files under __tests__/ are changed within 5 minutes'')
     = Some 300 \<and>
   ''__tests__/'' \<in> set (iPathIncludes
     (extractIntent ''If 3 or more files under __tests__/ are changed within 5 minutes'')) \<and>
   iPathIncludes (extractIntent ''If 3 or more files under __tests__/ are changed within 5 minutes'')
     = [''__tests__/'']"
proof -
  have p: "iPathIncludes (extractIntent testsCondition) = [''__tests__/'']"
    by (simp only: extractIntent_iPathIncludes testsCondition_lower testsCondition_pathTokens
        testsCondition_phraseTokens testsCondition_paths)
  show ?thesis
    using p testsCondition_intent unfolding testsCondition_def by simp
qed

section \<open>Properties of the alignment pass\<close>

lemma changeCondition_count:
  "parseThresholdCount ''alert when typescript files change'' = None"
  by code_simp

text \<open>
  Claim C7. When the intent of the condition has both a count and a window, the aligned
  rule is a threshold rule with exactly these two values, whatever the compiled rule held;
  when the intent lacks one of them and the compiled rule is a threshold rule, the aligned
  rule is a pattern rule without count and window.
\<close>

theorem alignRuleToIntent_threshold:
  "(iCount (extractIntent c) = Some n \<and> iWindowSeconds (extractIntent c) = Some w \<longrightarrow>
      ctype (alignRuleToIntent c r) = ''threshold'' \<and>
      ccount (alignRuleToIntent c r) = Some n \<and>
      cwindowSeconds (alignRuleToIntent c r) = Some w) \<and>
   ((iCount (extractIntent c) = None \<or> iWindowSeconds (extractIntent c) = None) \<and>
    ctype r = ''threshold'' \<longrightarrow>
      ctype (alignRuleToIntent c r) = ''pattern'' \<and>
      ccount (alignRuleToIntent c r) = None \<and>
      cwindowSeconds (alignRuleToIntent c r) = None)"
  by (auto simp: alignRuleToIntent_def Let_def)

theorem alignRuleToIntent_threshold_witness:
  "iCount (extractIntent testsCondition) = Some 3 \<and>
   iWindowSeconds (extractIntent testsCondition) = Some 300 \<and>
   ctype hallucinatedPattern = ''pattern'' \<and>
   ctype (alignRuleToIntent testsCondition hallucinatedPattern) = ''threshold'' \<and>
   ccount (alignRuleToIntent testsCondition hallucinatedPattern) = Some 3 \<and>
   cwindowSeconds (alignRuleToIntent testsCondition hallucinatedPattern) = Some 300 \<and>
   iCount (extractIntent changeCondition) = None \<and>
   ctype (hallucinatedPattern\<lparr>ctype := ''threshold''\<rparr>) = ''threshold'' \<and>
   ctype (alignRuleToIntent changeCondition (hallucinatedPattern\<lparr>ctype := ''threshold''\<rparr>))
     = ''pattern'' \<and>
   ccount (alignRuleToIntent changeCondition (hallucinatedPattern\<lparr>ctype := ''threshold''\<rparr>))
     = None \<and>
   cwindowSeconds (alignRuleToIntent changeCondition (hallucinatedPattern\<lparr>ctype := ''threshold''\<rparr>))
     = None"
proof -
  have none: "iCount (extractIntent changeCondition) = None"
    by (simp only: extractIntent_iCount changeCondition_lower changeCondition_count)
  have t: "ctype hallucinatedPattern = ''pattern''"
    "ctype (hallucinatedPattern\<lparr>ctype := ''threshold''\<rparr>) = ''threshold''"
    by (simp_all add: hallucinatedPattern_def)
  from alignRuleToIntent_threshold[of testsCondition 3 300 hallucinatedPattern]
    alignRuleToIntent_threshold[of changeCondition 0 0 "hallucinatedPattern\<lparr>ctype := ''threshold''\<rparr>"]
    testsCondition_intent none t
  show ?thesis by blast
qed

section \<open>Properties of the validator\<close>

text \<open>
  Claim C6. A compiled rule whose \<open>pathIncludes\<close> and \<open>extensions\<close> are both empty or
  absent is invalid, and the errors contain the "too broad" error on the field \<open>match\<close>,
  whatever the other fields of the rule are.
\<close>

theorem validateCompiledRule_too_broad:
  "entries (pathIncludes (cmatch rule)) = [] \<and> entries (extensions (cmatch rule)) = [] \<longrightarrow>
     \<not> valid (validateCompiledRule rule) \<and>
     \<lparr>field = ''match'',
      message = ''Rule is too broad. Add pathIncludes or extensions to narrow scope.''\<rparr>
       \<in> set (errors (validateCompiledRule rule))"
  by (auto simp: validateCompiledRule_def Let_def present_entries)

theorem validateCompiledRule_too_broad_witness:
  "entries (pathIncludes (cmatch broadRule)) = [] \<and> entries (extensions (cmatch broadRule)) = [] \<and>
   \<not> valid (validateCompiledRule broadRule) \<and>
   \<lparr>field = ''match'',
    message = ''Rule is too broad. Add pathIncludes or extensions to narrow scope.''\<rparr>
     \<in> set (errors (validateCompiledRule broadRule))"
proof -
  have h: "entries (pathIncludes (cmatch broadRule)) = [] \<and>
           entries (extensions (cmatch broadRule)) = []"
    by (simp add: broadRule_def entries_def)
  from validateCompiledRule_too_broad[of broadRule] h show ?thesis by blast
qed

section \<open>Properties of the rule store\<close>

subsection \<open>Updating a rule\<close>

lemma modifyFirst_all2:
  "(\<And>x. R x (f x)) \<Longrightarrow> (\<And>x. R x x) \<Longrightarrow> list_all2 R xs (modifyFirst p f xs)"
  by (induction xs) (auto simp: list_all2_refl)

lemma applyUpdates_frame: "sameSemantics r (applyUpdates updates r)"
  by (simp add: sameSemantics_def applyUpdates_def Let_def split: option.splits)

text \<open>
  Claim C8. \<open>updateRule\<close> keeps the list of rules position by position, and every rule
  keeps its type, match filter, window, count, identifier, creation time, source, original
  condition, match count, time of the last match and action, whatever keys the updates
  carry; the schema version is kept too.
\<close>

theorem updateRule_frame:
  "list_all2 sameSemantics (rules data) (rules (snd (updateRule ident updates data))) \<and>
   version (snd (updateRule ident updates data)) = version data"
proof -
  have "list_all2 sameSemantics (rules data)
          (modifyFirst (\<lambda>r. rid r = ident) (applyUpdates updates) (rules data))"
    by (rule modifyFirst_all2) (simp_all add: applyUpdates_frame, simp add: sameSemantics_def)
  moreover have "list_all2 sameSemantics (rules data) (rules data)"
    by (simp add: list_all2_refl sameSemantics_def)
  ultimately show ?thesis
    by (simp add: updateRule_def Let_def split: option.splits)
qed

theorem updateRule_frame_witness:
  "fst (updateRule ''rule_1'' greedyUpdates oneRuleStore) \<and>
   list_all2 sameSemantics (rules oneRuleStore)
     (rules (snd (updateRule ''rule_1'' greedyUpdates oneRuleStore))) \<and>
   rules (snd (updateRule ''rule_1'' greedyUpdates oneRuleStore)) =
     [burstRule\<lparr>name := ''renamed'', description := ''d'', enabled := False\<rparr>]"
proof -
  have r: "rules (snd (updateRule ''rule_1'' greedyUpdates oneRuleStore)) =
     [burstRule\<lparr>name := ''renamed'', description := ''d'', enabled := False\<rparr>]"
    and c: "fst (updateRule ''rule_1'' greedyUpdates oneRuleStore)"
    by (simp_all add: updateRule_def oneRuleStore_def greedyUpdates_def burstRule_def
        applyUpdates_def Let_def)
  from updateRule_frame[of oneRuleStore "''rule_1''" greedyUpdates] r c
  show ?thesis by simp
qed

subsection \<open>Sorting the entries\<close>
























subsection \<open>The signature is an injective encoding\<close>

lemma of_char_hexDigit: "d < 16 \<Longrightarrow> (of_char (hexDigit d) :: nat) = (if d < 10 then 48 + d else 87 + d)"
  by (simp add: hexDigit_def)

lemma hexDigit_inj: 
  assumes "a < 16" "b < 16" "hexDigit a = hexDigit b" shows "a = b"
proof -
  have "(of_char (hexDigit a) :: nat) = of_char (hexDigit b)" using assms(3) by simp
  then show ?thesis using assms(1,2) by (simp add: of_char_hexDigit split: if_splits)
qed

lemma of_char_inj: "(of_char c :: nat) = of_char d \<Longrightarrow> c = d"
  by simp

lemma jsonEscape_cases:
  "jsonEscape c = [c] \<and> c \<noteq> CHR 0x5C \<and> c \<noteq> CHR 0x22 \<or>
   (\<exists>e r. jsonEscape c = CHR 0x5C # e # r)"
  by (simp add: jsonEscape_def Let_def)

lemma jsonEscape_not_quote: "jsonEscape c @ r \<noteq> CHR 0x22 # r'"
  using jsonEscape_cases[of c] by auto

lemma hex_pair_inj:
  fixes n m :: nat
  assumes "n < 32" "m < 32" "hexDigit (n div 16) = hexDigit (m div 16)"
    "hexDigit (n mod 16) = hexDigit (m mod 16)"
  shows "n = m"
proof -
  have "n div 16 = m div 16" by (rule hexDigit_inj) (use assms in auto)
  moreover have "n mod 16 = m mod 16" by (rule hexDigit_inj) (use assms in auto)
  ultimately show ?thesis by (metis div_mult_mod_eq)
qed

lemma jsonEscape_prefix:
  assumes "jsonEscape c @ r = jsonEscape d @ r'"
  shows "c = d \<and> r = r'"
proof -
  have "c = d"
    using assms
    by (auto simp: jsonEscape_def Let_def split: if_splits dest: hex_pair_inj)
       (metis of_char_eq_iff)+
  then show ?thesis using assms by simp
qed

lemma jsonBody_prefix:
  "concat (map jsonEscape s) @ CHR 0x22 # r = concat (map jsonEscape t) @ CHR 0x22 # r' \<Longrightarrow>
   s = t \<and> r = r'"
proof (induction s arbitrary: t)
  case Nil
  show ?case
  proof (cases t)
    case Nil
    with Nil.prems show ?thesis by simp
  next
    case (Cons d ds)
    with Nil.prems have "jsonEscape d @ (concat (map jsonEscape ds) @ CHR 0x22 # r') = CHR 0x22 # r"
      by simp
    then show ?thesis using jsonEscape_not_quote by blast
  qed
next
  case (Cons c cs)
  show ?case
  proof (cases t)
    case Nil
    with Cons.prems have "jsonEscape c @ (concat (map jsonEscape cs) @ CHR 0x22 # r) = CHR 0x22 # r'"
      by simp
    then show ?thesis using jsonEscape_not_quote by blast
  next
    case (Cons d ds)
    with Cons.prems have "jsonEscape c @ (concat (map jsonEscape cs) @ CHR 0x22 # r) =
        jsonEscape d @ (concat (map jsonEscape ds) @ CHR 0x22 # r')"
      by simp
    from jsonEscape_prefix[OF this] Cons.IH[of ds] Cons show ?thesis by simp
  qed
qed

lemma jsonString_prefix:
  assumes "jsonString s @ r = jsonString t @ r'"
  shows "s = t \<and> r = r'"
  using assms jsonBody_prefix[of s r t r'] by (simp add: jsonString_def)

lemma jsonString_inj: "jsonString s = jsonString t \<longleftrightarrow> s = t"
  using jsonString_prefix[of s "[]" t "[]"] by auto











lemma showNat_nonempty: "showNat n \<noteq> []"
  by (subst showNat.simps) (simp del: showNat.simps)













subsection \<open>The signature as the JSON text of an object\<close>




subsection \<open>Two pairs of rules\<close>










lemma tied_not_ordered: "\<not> ordersArrays controlBlindHost tiedRuleA"
  by code_simp




section \<open>Events on rejected paths\<close>

text \<open>
  Claim C10. When the validator rejects the resolved path of an event, \<open>evaluateEvent\<close>
  returns no match, and the engine is as before except that \<open>eventsObserved\<close> is one
  higher: the store (so every match count and time of last match), the threshold windows,
  the recent matches, \<open>rulesEvaluated\<close> and \<open>matches\<close> are unchanged.
\<close>

theorem evaluateEvent_rejected_path:
  "\<not> validateFilePath (resolve (watchDir eng) (path event)) \<longrightarrow>
     fst (evaluateEvent h validateFilePath resolve clock event eng) = [] \<and>
     snd (evaluateEvent h validateFilePath resolve clock event eng) =
       eng\<lparr>stats := (stats eng)\<lparr>eventsObserved := eventsObserved (stats eng) + 1\<rparr>\<rparr> \<and>
     ruleStore (snd (evaluateEvent h validateFilePath resolve clock event eng)) = ruleStore eng \<and>
     thresholdWindows (snd (evaluateEvent h validateFilePath resolve clock event eng))
       = thresholdWindows eng \<and>
     recentMatches (snd (evaluateEvent h validateFilePath resolve clock event eng))
       = recentMatches eng \<and>
     rulesEvaluated (stats (snd (evaluateEvent h validateFilePath resolve clock event eng)))
       = rulesEvaluated (stats eng) \<and>
     matches (stats (snd (evaluateEvent h validateFilePath resolve clock event eng)))
       = matches (stats eng) \<and>
     eventsObserved (stats (snd (evaluateEvent h validateFilePath resolve clock event eng)))
       = eventsObserved (stats eng) + 1"
  by (simp add: evaluateEvent_def Let_def)

theorem evaluateEvent_rejected_path_witness:
  "\<not> (\<lambda>p. False) ((\<lambda>d p. d @ ''/'' @ p) (watchDir tsEngine) (path tsEvent)) \<and>
   fst (evaluateEvent asciiHost (\<lambda>p. False) (\<lambda>d p. d @ ''/'' @ p) (\<lambda>k. 0) tsEvent tsEngine) = [] \<and>
   snd (evaluateEvent asciiHost (\<lambda>p. False) (\<lambda>d p. d @ ''/'' @ p) (\<lambda>k. 0) tsEvent tsEngine) =
     tsEngine\<lparr>stats := \<lparr>eventsObserved = 1, rulesEvaluated = 0, matches = 0\<rparr>\<rparr> \<and>
   length (fst (evaluateEvent asciiHost (\<lambda>p. True) (\<lambda>d p. d @ ''/'' @ p) (\<lambda>k. 0) tsEvent tsEngine)) = 1"
proof -
  have accepted:
    "length (fst (evaluateEvent asciiHost (\<lambda>p. True) (\<lambda>d p. d @ ''/'' @ p) (\<lambda>k. 0) tsEvent tsEngine)) = 1"
    using tsEvent_matches
    by (simp add: evaluateEvent_def Let_def tsEngine_def getEnabledRules_def burstRule_def
        evaluateRule_def)
  have st: "(stats tsEngine)\<lparr>eventsObserved := eventsObserved (stats tsEngine) + 1\<rparr> =
      \<lparr>eventsObserved = 1, rulesEvaluated = 0, matches = 0\<rparr>"
    by (simp add: tsEngine_def)
  from evaluateEvent_rejected_path[where validateFilePath = "\<lambda>p. False"
      and resolve = "\<lambda>d p. d @ ''/'' @ p" and eng = tsEngine and event = tsEvent
      and clock = "\<lambda>k. 0" and h = asciiHost]
    accepted st
  show ?thesis by simp
qed

end
